theory Spec2Isabelle
  imports Main "HOL-Library.Word" "HOL-Library.Sublist"
begin

unbundle bit_operations_syntax

section \<open>Bytes, strings and 32-bit lengths\<close>

text \<open>
  A Go \<^verbatim>\<open>[]byte\<close> is a list of 8-bit words, an \<^verbatim>\<open>int32\<close> a 32-bit word read with
  \<open>sint\<close>. A Go \<^verbatim>\<open>string\<close> is a byte sequence as well; it is modelled as a HOL
  \<open>string\<close> (a list of 8-bit characters), and the conversions \<^verbatim>\<open>[]byte(s)\<close> and
  \<^verbatim>\<open>string(b)\<close> are written out.
\<close>

type_synonym byte = "8 word"
type_synonym int32 = "32 word"

definition byte_of_char :: "char \<Rightarrow> byte" where
  "byte_of_char c = word_of_nat (of_char c)"

definition char_of_byte :: "byte \<Rightarrow> char" where
  "char_of_byte b = char_of (unat b)"

text \<open>\<^verbatim>\<open>[]byte(s)\<close>\<close>
definition bytes_of_string :: "string \<Rightarrow> byte list" where
  "bytes_of_string s = map byte_of_char s"

text \<open>\<^verbatim>\<open>string(b)\<close>\<close>
definition string_of_bytes :: "byte list \<Rightarrow> string" where
  "string_of_bytes bs = map char_of_byte bs"

text \<open>\<^verbatim>\<open>int32(len(x))\<close>: the conversion keeps the low 32 bits.\<close>
definition int32_of_len :: "nat \<Rightarrow> int32" where
  "int32_of_len n = word_of_nat n"

text \<open>\<^verbatim>\<open>binary.Write(w, binary.BigEndian, v)\<close> for an \<^verbatim>\<open>int32\<close>: the four bytes written.\<close>
definition be32_bytes :: "int32 \<Rightarrow> byte list" where
  "be32_bytes w = [ucast (drop_bit 24 w), ucast (drop_bit 16 w), ucast (drop_bit 8 w), ucast w]"

text \<open>\<^verbatim>\<open>int32(binary.BigEndian.Uint32(b))\<close> on the four bytes read.\<close>
definition be32_word :: "byte list \<Rightarrow> int32" where
  "be32_word bs =
     push_bit 24 (ucast (bs ! 0)) OR push_bit 16 (ucast (bs ! 1)) OR
     push_bit 8 (ucast (bs ! 2)) OR ucast (bs ! 3)"

section \<open>Readers\<close>

datatype io_error = EOF | ErrUnexpectedEOF | NetError string

text \<open>
  \<^verbatim>\<open>io.ReadFull(r, buf)\<close> on a \<^verbatim>\<open>bytes.Reader\<close> holding \<open>r\<close>, for a buffer of \<open>n\<close> bytes:
  nothing is read for an empty buffer; \<^verbatim>\<open>io.EOF\<close> when no byte is left,
  \<^verbatim>\<open>io.ErrUnexpectedEOF\<close> when fewer than \<open>n\<close> are.
\<close>
definition reader_ReadFull :: "byte list \<Rightarrow> nat \<Rightarrow> io_error + (byte list \<times> byte list)" where
  "reader_ReadFull r n =
     (if n = 0 then Inr ([], r)
      else if r = [] then Inl EOF
      else if length r < n then Inl ErrUnexpectedEOF
      else Inr (take n r, drop n r))"

text \<open>\<^verbatim>\<open>binary.Read(r, binary.BigEndian, &v)\<close> for an \<^verbatim>\<open>int32\<close> on a \<^verbatim>\<open>bytes.Reader\<close>.\<close>
definition reader_ReadInt32 :: "byte list \<Rightarrow> io_error + (int32 \<times> byte list)" where
  "reader_ReadInt32 r =
     (case reader_ReadFull r 4 of
        Inl e \<Rightarrow> Inl e
      | Inr (bs, r') \<Rightarrow> Inr (be32_word bs, r'))"

text \<open>
  A connection (\<^verbatim>\<open>net.Conn\<close>) as one side sees it: the bytes the peer delivers before
  its stream ends, how the stream ends (\<open>None\<close>: the peer closed it, \<open>Some m\<close>: a
  network error with message \<open>m\<close>), the outcome of each coming \<^verbatim>\<open>Write\<close> call
  (\<open>None\<close> or no entry: written, \<open>Some m\<close>: fails with \<open>m\<close>), the bytes written so
  far, and whether this side has closed it.
\<close>
record conn =
  incoming :: "byte list"
  read_fault :: "string option"
  write_script :: "string option list"
  sent :: "byte list"
  closed :: bool

definition stream_end :: "conn \<Rightarrow> io_error" where
  "stream_end c =
     (case read_fault c of
        Some m \<Rightarrow> NetError m
      | None \<Rightarrow> if incoming c = [] then EOF else ErrUnexpectedEOF)"

text \<open>\<^verbatim>\<open>io.ReadFull(conn, buf)\<close> for a buffer of \<open>n\<close> bytes.\<close>
definition conn_ReadFull :: "conn \<Rightarrow> nat \<Rightarrow> io_error + (byte list \<times> conn)" where
  "conn_ReadFull c n =
     (if n = 0 then Inr ([], c)
      else if length (incoming c) < n then Inl (stream_end c)
      else Inr (take n (incoming c), c\<lparr>incoming := drop n (incoming c)\<rparr>))"

text \<open>\<^verbatim>\<open>binary.Read(conn, binary.BigEndian, &v)\<close> for an \<^verbatim>\<open>int32\<close>.\<close>
definition conn_ReadInt32 :: "conn \<Rightarrow> io_error + (int32 \<times> conn)" where
  "conn_ReadInt32 c =
     (case conn_ReadFull c 4 of
        Inl e \<Rightarrow> Inl e
      | Inr (bs, c') \<Rightarrow> Inr (be32_word bs, c'))"

text \<open>\<^verbatim>\<open>conn.Write(bs)\<close>, also under \<^verbatim>\<open>binary.Write(conn, ...)\<close>.\<close>
definition conn_Write :: "conn \<Rightarrow> byte list \<Rightarrow> io_error + conn" where
  "conn_Write c bs =
     (case write_script c of
        [] \<Rightarrow> Inr (c\<lparr>sent := sent c @ bs\<rparr>)
      | None # ws \<Rightarrow> Inr (c\<lparr>write_script := ws, sent := sent c @ bs\<rparr>)
      | Some m # ws \<Rightarrow> Inl (NetError m))"

text \<open>The next \<open>n\<close> \<^verbatim>\<open>Write\<close> calls on the connection succeed.\<close>
definition next_writes_succeed :: "nat \<Rightarrow> conn \<Rightarrow> bool" where
  "next_writes_succeed n c = list_all (\<lambda>r. r = None) (take n (write_script c))"

definition conn_Close :: "conn \<Rightarrow> conn" where
  "conn_Close c = c\<lparr>closed := True\<rparr>"

section \<open>Frames\<close>

text \<open>
  Both readers (\<^verbatim>\<open>RPCServer.handleConnection\<close>, lines 120-169 of
  \<^verbatim>\<open>infra/network/rpc.go\<close>, and \<^verbatim>\<open>RPCClient.Call\<close>, lines 457-501) run the same
  steps, which differ in the name of the first field only. Each place where the
  source returns is a constructor; \<^verbatim>\<open>make([]byte, n)\<close> panics for a negative \<open>n\<close>.
\<close>
datatype frame_error =
    TotalLenRead io_error
  | InvalidTotalLen int32
  | FrameDataRead io_error
  | NameLenRead io_error
  | NameRead io_error
  | PayloadLenRead io_error
  | PayloadRead io_error
  | MakeslicePanic

text \<open>The part of a reader that works on the frame in memory (\<^verbatim>\<open>frameReader\<close>).\<close>
definition parseFrame :: "byte list \<Rightarrow> frame_error + (string \<times> byte list)" where
  "parseFrame frameData =
     (case reader_ReadInt32 frameData of
        Inl e \<Rightarrow> Inl (NameLenRead e)
      | Inr (nameLen, r1) \<Rightarrow>
          if sint nameLen < 0 then Inl MakeslicePanic
          else (case reader_ReadFull r1 (nat (sint nameLen)) of
            Inl e \<Rightarrow> Inl (NameRead e)
          | Inr (nameBytes, r2) \<Rightarrow>
              (case reader_ReadInt32 r2 of
                 Inl e \<Rightarrow> Inl (PayloadLenRead e)
               | Inr (payloadLen, r3) \<Rightarrow>
                   if sint payloadLen < 0 then Inl MakeslicePanic
                   else (case reader_ReadFull r3 (nat (sint payloadLen)) of
                     Inl e \<Rightarrow> Inl (PayloadRead e)
                   | Inr (payload, r4) \<Rightarrow> Inr (string_of_bytes nameBytes, payload)))))"

text \<open>Reading one frame from the connection: total length, frame data, then the fields.\<close>
definition readFrame :: "conn \<Rightarrow> frame_error + (string \<times> byte list \<times> conn)" where
  "readFrame c =
     (case conn_ReadInt32 c of
        Inl e \<Rightarrow> Inl (TotalLenRead e)
      | Inr (totalFrameLen, c1) \<Rightarrow>
          if sint totalFrameLen \<le> 0 then Inl (InvalidTotalLen totalFrameLen)
          else (case conn_ReadFull c1 (nat (sint totalFrameLen)) of
            Inl e \<Rightarrow> Inl (FrameDataRead e)
          | Inr (frameData, c2) \<Rightarrow>
              (case parseFrame frameData of
                 Inl e \<Rightarrow> Inl e
               | Inr (name, payload) \<Rightarrow> Inr (name, payload, c2))))"

text \<open>
  Both writers (\<^verbatim>\<open>RPCClient.Call\<close>, lines 424-441, and
  \<^verbatim>\<open>RPCServer.handleConnection\<close>, lines 198-221) fill a buffer with the length of the
  name (the method name, or the error string), the name, the length of the payload and the
  payload. Writes to a \<^verbatim>\<open>bytes.Buffer\<close> do not fail.
\<close>
definition frameBuffer :: "string \<Rightarrow> byte list \<Rightarrow> byte list" where
  "frameBuffer name payload =
     be32_bytes (int32_of_len (length (bytes_of_string name))) @ bytes_of_string name @
     be32_bytes (int32_of_len (length payload)) @ payload"

text \<open>What a writer puts on the wire: the total length, then the buffer.\<close>
definition encodeFrame :: "string \<Rightarrow> byte list \<Rightarrow> byte list" where
  "encodeFrame name payload =
     be32_bytes (int32_of_len (length (frameBuffer name payload))) @ frameBuffer name payload"

section \<open>RPCServer\<close>

text \<open>
  A registered handler takes the request payload and returns the response payload and an
  application error (\<open>None\<close> is \<^verbatim>\<open>nil\<close>, \<open>Some m\<close> an error whose \<^verbatim>\<open>Error()\<close> is \<open>m\<close>).
\<close>
type_synonym handler = "byte list \<Rightarrow> byte list \<times> string option"

record RPCServer =
  handlers :: "string \<rightharpoonup> handler"

definition NewRPCServer :: RPCServer where
  "NewRPCServer = \<lparr>handlers = Map.empty\<rparr>"

definition RegisterHandler :: "RPCServer \<Rightarrow> string \<Rightarrow> handler \<Rightarrow> RPCServer" where
  "RegisterHandler s methodName handler = s\<lparr>handlers := (handlers s)(methodName \<mapsto> handler)\<rparr>"

record RPCResponse =
  Payload :: "byte list"
  Error :: string

text \<open>
  Lines 173-189 of \<^verbatim>\<open>handleConnection\<close>: the response for one request, and the handler
  invocations made for it (none, or the one call with its method name and payload).
\<close>
definition dispatch ::
  "RPCServer \<Rightarrow> string \<Rightarrow> byte list \<Rightarrow> RPCResponse \<times> (string \<times> byte list) list" where
  "dispatch s methodName reqPayload =
     (case handlers s methodName of
        None \<Rightarrow>
          (\<lparr>Payload = [], Error = ''no coordinator found for method: '' @ methodName\<rparr>, [])
      | Some handler \<Rightarrow>
          (case handler reqPayload of
             (resPayload, appErr) \<Rightarrow>
               (\<lparr>Payload = resPayload, Error = (case appErr of None \<Rightarrow> [] | Some m \<Rightarrow> m)\<rparr>,
                [(methodName, reqPayload)])))"

text \<open>
  Why \<^verbatim>\<open>handleConnection\<close> left its loop. A read that ends in \<open>MakeslicePanic\<close> is a
  panic of the connection's goroutine: the deferred \<^verbatim>\<open>conn.Close()\<close> runs, nothing recovers
  the panic, and the Go runtime ends the whole process.
\<close>
datatype server_exit =
    ReadFailed frame_error
  | SendTotalLenFailed io_error
  | SendFrameFailed io_error

definition process_crashed :: "server_exit \<Rightarrow> bool" where
  "process_crashed e = (e = ReadFailed MakeslicePanic)"

text \<open>
  \<^verbatim>\<open>handleConnection\<close>: the loop over the requests of one connection. The result is the
  connection as the deferred close leaves it, the handler invocations made (after those
  in \<open>tr\<close>), and the reason for leaving the loop.
\<close>
function handleConnection ::
  "RPCServer \<Rightarrow> conn \<Rightarrow> (string \<times> byte list) list \<Rightarrow>
   conn \<times> (string \<times> byte list) list \<times> server_exit" where
  "handleConnection s c tr =
     (case readFrame c of
        Inl e \<Rightarrow> (conn_Close c, tr, ReadFailed e)
      | Inr (methodName, reqPayload, c1) \<Rightarrow>
          (case dispatch s methodName reqPayload of
             (rpcResp, calls) \<Rightarrow>
               (case conn_Write c1
                       (be32_bytes (int32_of_len
                          (length (frameBuffer (Error rpcResp) (Payload rpcResp))))) of
                  Inl e \<Rightarrow> (conn_Close c1, tr @ calls, SendTotalLenFailed e)
                | Inr c2 \<Rightarrow>
                    (case conn_Write c2 (frameBuffer (Error rpcResp) (Payload rpcResp)) of
                       Inl e \<Rightarrow> (conn_Close c2, tr @ calls, SendFrameFailed e)
                     | Inr c3 \<Rightarrow> handleConnection s c3 (tr @ calls)))))"
  by pat_completeness auto
termination
proof (relation "measure (\<lambda>(s, c, tr). length (incoming c))", goal_cases)
  case 1
  show ?case by simp
next
  case prems: 2
  have "length (incoming c1) < length (incoming c)"
    if "readFrame c = Inr (m, p, c1)" for c m p c1
    using that
    by (auto simp: readFrame_def conn_ReadInt32_def conn_ReadFull_def
          split: sum.splits if_splits prod.splits)
  moreover have "incoming c2 = incoming c1" if "conn_Write c1 bs = Inr c2" for c1 c2 bs
    using that by (auto simp: conn_Write_def split: list.splits option.splits)
  ultimately show ?case
    using prems by (metis (no_types, lifting) in_measure old.prod.case)
qed

declare handleConnection.simps [simp del]


section \<open>RPCClient\<close>

text \<open>The decimal digits that \<^verbatim>\<open>%d\<close> prints.\<close>
function nat_dec :: "nat \<Rightarrow> string" where
  "nat_dec n =
     (if n < 10 then [''0123456789'' ! n]
      else nat_dec (n div 10) @ [''0123456789'' ! (n mod 10)])"
  by pat_completeness auto
termination
  by (relation "measure id") auto

declare nat_dec.simps [simp del]

definition fmt_d :: "int \<Rightarrow> string" where
  "fmt_d i = (if i < 0 then CHR ''-'' # nat_dec (nat (- i)) else nat_dec (nat i))"

text \<open>\<^verbatim>\<open>'%s'\<close>: the argument between two apostrophes.\<close>
definition quoted :: "string \<Rightarrow> string" where
  "quoted s = CHR 0x27 # s @ [CHR 0x27]"

text \<open>\<^verbatim>\<open>%w\<close> and \<^verbatim>\<open>%v\<close> of an I/O error: its \<^verbatim>\<open>Error()\<close> text.\<close>
definition io_error_msg :: "io_error \<Rightarrow> string" where
  "io_error_msg e =
     (case e of EOF \<Rightarrow> ''EOF'' | ErrUnexpectedEOF \<Rightarrow> ''unexpected EOF'' | NetError m \<Rightarrow> m)"

text \<open>\<^verbatim>\<open>consul.ServiceEntry\<close> with the fields \<^verbatim>\<open>Call\<close> reads; \<open>None\<close> is a nil \<^verbatim>\<open>Service\<close>.\<close>
record AgentService =
  Address :: string
  Port :: int

record ServiceEntry =
  Service :: "AgentService option"

text \<open>A pool: a buffered channel of connections, its capacity fixed when it is made.\<close>
record chan =
  cap :: nat
  buf :: "conn list"

text \<open>
  The client. \<open>consulClient\<close> is \<open>None\<close> for a nil pointer; what the Consul agent
  answers belongs to the world outside. \<open>nextInstance\<close> holds \<^verbatim>\<open>uint64\<close> counters, and a
  missing key reads as 0.
\<close>
record RPCClient =
  pools :: "string \<rightharpoonup> chan"
  maxConnsPerEndpoint :: nat
  consulClient :: "unit option"
  nextInstance :: "string \<rightharpoonup> 64 word"

text \<open>\<^verbatim>\<open>c.nextInstance[serviceName]\<close>: a Go map read, 0 for a missing key.\<close>
definition nextInstance_get :: "RPCClient \<Rightarrow> string \<Rightarrow> 64 word" where
  "nextInstance_get c serviceName =
     (case nextInstance c serviceName of None \<Rightarrow> 0 | Some i \<Rightarrow> i)"

definition defaultMaxConnsPerEndpoint :: int where
  "defaultMaxConnsPerEndpoint = 10"

definition NewRPCClient :: "unit option \<Rightarrow> int \<Rightarrow> RPCClient" where
  "NewRPCClient cc maxConns =
     \<lparr>pools = Map.empty,
      maxConnsPerEndpoint = nat (if maxConns \<le> 0 then defaultMaxConnsPerEndpoint else maxConns),
      consulClient = cc,
      nextInstance = Map.empty\<rparr>"

text \<open>
  What one \<^verbatim>\<open>Call\<close> meets outside the client: whether \<^verbatim>\<open>net.SplitHostPort\<close> accepts a
  name, the answer of \<^verbatim>\<open>DiscoverService\<close> (an error text or the instances), the outcome
  of \<^verbatim>\<open>net.DialTimeout\<close>, and \<^verbatim>\<open>proto.Marshal\<close> and \<^verbatim>\<open>proto.Unmarshal\<close> (the
  latter returns its error and the message as it leaves it).
\<close>
record ('req, 'resp) world =
  SplitHostPort :: "string \<Rightarrow> bool"
  DiscoverService :: "string \<Rightarrow> string + ServiceEntry list"
  DialTimeout :: "string \<Rightarrow> string + conn"
  Marshal :: "'req \<Rightarrow> string + byte list"
  Unmarshal :: "byte list \<Rightarrow> 'resp \<Rightarrow> string option \<times> 'resp"

text \<open>
  Lines 364-394 of \<^verbatim>\<open>Call\<close>: the target address, or the error returned, and the client
  with its round-robin counter. \<^verbatim>\<open>len(instances)\<close> is a non-negative \<^verbatim>\<open>int\<close>, so
  \<^verbatim>\<open>uint64(len(instances))\<close> is exact and the index is computed on \<open>nat\<close>.
\<close>
definition resolveTarget ::
  "('req, 'resp) world \<Rightarrow> RPCClient \<Rightarrow> string \<Rightarrow> (string + string) \<times> RPCClient" where
  "resolveTarget w c serviceName =
     (if SplitHostPort w serviceName then (Inr serviceName, c)
      else (case consulClient c of
        None \<Rightarrow>
          (Inl (''RPCClient: Consul client is not initialized and service name '' @
                quoted serviceName @ '' is not a direct address''), c)
      | Some cc \<Rightarrow>
          (case DiscoverService w serviceName of
             Inl errDiscover \<Rightarrow>
               (Inl (''RPCClient: failed to discover service '' @ serviceName @ '': '' @
                     errDiscover), c)
           | Inr instances \<Rightarrow>
               if length instances = 0
               then (Inl (''RPCClient: no instances found for service '' @ serviceName), c)
               else
                 (let currentIndex = nextInstance_get c serviceName;
                      selectedInstance = instances ! (unat currentIndex mod length instances);
                      c' = c\<lparr>nextInstance := (nextInstance c)(serviceName \<mapsto> currentIndex + 1)\<rparr>
                  in (case Service selectedInstance of
                        None \<Rightarrow>
                          (Inl (''RPCClient: selected service instance for '' @ serviceName @
                                '' has nil Service data after round-robin''), c')
                      | Some svc \<Rightarrow> (Inr (Address svc @ '':'' @ fmt_d (Port svc)), c'))))))"

text \<open>\<^verbatim>\<open>getConnection\<close>: the pool is made on demand; its oldest connection is reused, or a
  new one is dialled.\<close>
definition getConnection ::
  "('req, 'resp) world \<Rightarrow> RPCClient \<Rightarrow> string \<Rightarrow> (string + conn) \<times> RPCClient" where
  "getConnection w c endpointAddress =
     (let pool = (case pools c endpointAddress of
                    None \<Rightarrow> \<lparr>cap = maxConnsPerEndpoint c, buf = []\<rparr>
                  | Some p \<Rightarrow> p)
      in (case buf pool of
            conn # rest \<Rightarrow>
              (Inr conn, c\<lparr>pools := (pools c)(endpointAddress \<mapsto> pool\<lparr>buf := rest\<rparr>)\<rparr>)
          | [] \<Rightarrow>
              (case DialTimeout w endpointAddress of
                 Inl e \<Rightarrow>
                   (Inl (''failed to dial '' @ endpointAddress @ '': '' @ e),
                    c\<lparr>pools := (pools c)(endpointAddress \<mapsto> pool)\<rparr>)
               | Inr conn \<Rightarrow> (Inr conn, c\<lparr>pools := (pools c)(endpointAddress \<mapsto> pool)\<rparr>))))"

text \<open>\<^verbatim>\<open>returnConnection\<close>: the client and the connection as they are left.\<close>
definition returnConnection ::
  "RPCClient \<Rightarrow> string \<Rightarrow> conn option \<Rightarrow> RPCClient \<times> conn option" where
  "returnConnection c endpointAddress conn =
     (case conn of
        None \<Rightarrow> (c, None)
      | Some cn \<Rightarrow>
          (case pools c endpointAddress of
             None \<Rightarrow> (c, Some (conn_Close cn))
           | Some pool \<Rightarrow>
               if length (buf pool) < cap pool
               then (c\<lparr>pools := (pools c)(endpointAddress \<mapsto> pool\<lparr>buf := buf pool @ [cn]\<rparr>)\<rparr>,
                     Some cn)
               else (c, Some (conn_Close cn))))"

text \<open>How \<^verbatim>\<open>Call\<close> ends: it returns an error (\<open>None\<close> is \<^verbatim>\<open>nil\<close>), or it panics.\<close>
datatype call_exit = Returned "string option" | Panicked

datatype send_error = SendTotalLen io_error | SendFrame io_error

text \<open>Lines 443-453: the total length, then the frame.\<close>
definition sendRequest :: "conn \<Rightarrow> byte list \<Rightarrow> send_error \<times> conn + conn" where
  "sendRequest conn requestFrameBuffer =
     (case conn_Write conn (be32_bytes (int32_of_len (length requestFrameBuffer))) of
        Inl e \<Rightarrow> Inl (SendTotalLen e, conn)
      | Inr c1 \<Rightarrow>
          (case conn_Write c1 requestFrameBuffer of
             Inl e \<Rightarrow> Inl (SendFrame e, c1)
           | Inr c2 \<Rightarrow> Inr c2))"

text \<open>The errors of lines 447 and 452.\<close>
definition send_error_text :: "string \<Rightarrow> string \<Rightarrow> send_error \<Rightarrow> string" where
  "send_error_text methodName targetAddr e =
     (case e of
        SendTotalLen e \<Rightarrow>
          ''RPCClient: failed to send request total frame length for method '' @ methodName @
          '' to '' @ targetAddr @ '': '' @ io_error_msg e
      | SendFrame e \<Rightarrow>
          ''RPCClient: failed to send request frame for method '' @ methodName @
          '' to '' @ targetAddr @ '': '' @ io_error_msg e)"

text \<open>
  The errors of lines 458-501, one for each place where reading the response stops.
  A negative error-string or payload length makes \<^verbatim>\<open>make\<close> panic: \<^verbatim>\<open>Call\<close> returns nothing.
\<close>
definition read_error_exit :: "string \<Rightarrow> string \<Rightarrow> frame_error \<Rightarrow> call_exit" where
  "read_error_exit methodName targetAddr e =
     (case e of
        TotalLenRead e \<Rightarrow>
          if e = EOF \<or> e = ErrUnexpectedEOF
          then Returned (Some (''RPCClient: connection closed by server '' @ targetAddr @
                 '' while reading response total frame length for method '' @ methodName @
                 '': '' @ io_error_msg e))
          else Returned (Some (''RPCClient: failed to read response total frame length from '' @
                 targetAddr @ '' for method '' @ methodName @ '': '' @ io_error_msg e))
      | InvalidTotalLen n \<Rightarrow>
          Returned (Some (''RPCClient: invalid response total frame length '' @ fmt_d (sint n) @
            '' received from '' @ targetAddr @ '' for method '' @ methodName))
      | FrameDataRead e \<Rightarrow>
          Returned (Some (''RPCClient: failed to read response frame data from '' @ targetAddr @
            '' for method '' @ methodName @ '': '' @ io_error_msg e))
      | NameLenRead e \<Rightarrow>
          Returned (Some (''RPCClient: failed to read error string length from '' @ targetAddr @
            '': '' @ io_error_msg e))
      | NameRead e \<Rightarrow>
          Returned (Some (''RPCClient: failed to read error string from '' @ targetAddr @
            '': '' @ io_error_msg e))
      | PayloadLenRead e \<Rightarrow>
          Returned (Some (''RPCClient: failed to read response payload length from '' @
            targetAddr @ '': '' @ io_error_msg e))
      | PayloadRead e \<Rightarrow>
          Returned (Some (''RPCClient: failed to read response payload from '' @ targetAddr @
            '': '' @ io_error_msg e))
      | MakeslicePanic \<Rightarrow> Panicked)"

text \<open>
  Lines 418-520 of \<^verbatim>\<open>Call\<close>, on the connection obtained: how the call ends, the flag
  \<^verbatim>\<open>connHealthy\<close> as the deferred function finds it, the connection, and the response
  message. The flag is still true when \<^verbatim>\<open>make\<close> panics. After a successful read the
  payload has \<^verbatim>\<open>resPayloadLen\<close> bytes, so \<^verbatim>\<open>resPayloadLen > 0\<close> is tested on its length.
\<close>
definition exchange ::
  "('req, 'resp) world \<Rightarrow> string \<Rightarrow> string \<Rightarrow> string \<Rightarrow> conn \<Rightarrow> 'req \<Rightarrow> 'resp \<Rightarrow>
   call_exit \<times> bool \<times> conn \<times> 'resp" where
  "exchange w serviceName methodName targetAddr conn requestProto responseProto =
     (case Marshal w requestProto of
        Inl e \<Rightarrow>
          (Returned (Some (''failed to marshal request protobuf for method '' @ methodName @
             '': '' @ e)), True, conn, responseProto)
      | Inr reqPayloadBytes \<Rightarrow>
          (case sendRequest conn (frameBuffer methodName reqPayloadBytes) of
             Inl (e, c1) \<Rightarrow>
               (Returned (Some (send_error_text methodName targetAddr e)), False, c1,
                responseProto)
           | Inr c2 \<Rightarrow>
               (case readFrame c2 of
                  Inl e \<Rightarrow>
                    (read_error_exit methodName targetAddr e, e = MakeslicePanic, c2,
                     responseProto)
                | Inr (rpcErrStr, resPayloadBytes, c3) \<Rightarrow>
                    if rpcErrStr \<noteq> []
                    then (Returned (Some (''RPC call to method '' @ quoted methodName @
                            '' on service '' @ quoted serviceName @ '' at '' @
                            quoted targetAddr @ '' failed: '' @ rpcErrStr)),
                          True, c3, responseProto)
                    else if length resPayloadBytes > 0
                    then (case Unmarshal w resPayloadBytes responseProto of
                            (Some e, resp) \<Rightarrow>
                              (Returned (Some (''RPCClient: failed to unmarshal response protobuf for method '' @
                                 quoted methodName @ '' from service '' @ quoted serviceName @
                                 '' at '' @ quoted targetAddr @ '': '' @ e)),
                               True, c3, resp)
                          | (None, resp) \<Rightarrow> (Returned None, True, c3, resp))
                    else (Returned None, True, c3, responseProto))))"

text \<open>
  An I/O failure of the connection during the exchange: one of the two writes of the
  request fails (lines 445 and 450), or reading the total length or the frame data of the
  response from the connection fails (lines 458 and 472). The later reads work on the
  frame in memory.
\<close>
definition call_io_failure :: "conn \<Rightarrow> byte list \<Rightarrow> (send_error + frame_error) option" where
  "call_io_failure conn requestFrameBuffer =
     (case sendRequest conn requestFrameBuffer of
        Inl (e, c1) \<Rightarrow> Some (Inl e)
      | Inr c2 \<Rightarrow>
          (case readFrame c2 of
             Inl (TotalLenRead e) \<Rightarrow> Some (Inr (TotalLenRead e))
           | Inl (FrameDataRead e) \<Rightarrow> Some (Inr (FrameDataRead e))
           | _ \<Rightarrow> None))"

record 'resp call_result =
  call_exit :: call_exit
  call_client :: RPCClient
  call_response :: 'resp
  call_connHealthy :: "bool option"
  call_conn :: "conn option"

text \<open>
  \<^verbatim>\<open>Call\<close>. The deferred function hands a healthy connection to \<^verbatim>\<open>returnConnection\<close>
  and closes an unhealthy one; it runs when \<^verbatim>\<open>Call\<close> returns and when it panics.
  \<open>call_connHealthy\<close> and \<open>call_conn\<close> are \<open>None\<close> when no connection was obtained.
\<close>
definition Call ::
  "('req, 'resp) world \<Rightarrow> RPCClient \<Rightarrow> string \<Rightarrow> string \<Rightarrow> 'req \<Rightarrow> 'resp \<Rightarrow> 'resp call_result" where
  "Call w c serviceName methodName requestProto responseProto =
     (case resolveTarget w c serviceName of
        (Inl e, c1) \<Rightarrow>
          \<lparr>call_exit = Returned (Some e), call_client = c1, call_response = responseProto,
           call_connHealthy = None, call_conn = None\<rparr>
      | (Inr targetAddr, c1) \<Rightarrow>
          (case getConnection w c1 targetAddr of
             (Inl e, c2) \<Rightarrow>
               \<lparr>call_exit = Returned (Some (''RPCClient: failed to get connection to '' @
                   targetAddr @ '' for service '' @ serviceName @ '': '' @ e)),
                call_client = c2, call_response = responseProto,
                call_connHealthy = None, call_conn = None\<rparr>
           | (Inr conn, c2) \<Rightarrow>
               (case exchange w serviceName methodName targetAddr conn requestProto
                       responseProto of
                  (ex, connHealthy, conn', resp) \<Rightarrow>
                    if connHealthy
                    then (case returnConnection c2 targetAddr (Some conn') of
                            (c3, conn'') \<Rightarrow>
                              \<lparr>call_exit = ex, call_client = c3, call_response = resp,
                               call_connHealthy = Some True, call_conn = conn''\<rparr>)
                    else \<lparr>call_exit = ex, call_client = c2, call_response = resp,
                          call_connHealthy = Some False,
                          call_conn = Some (conn_Close conn')\<rparr>)))"

text \<open>
  A call of \<^verbatim>\<open>Call\<close> that reaches the round-robin selection (lines 382-387) when the
  client has a Consul client: the name is not a literal address and the discovery returns
  a non-empty list of instances.
\<close>
definition round_robin_call :: "('req, 'resp) world \<Rightarrow> string \<Rightarrow> bool" where
  "round_robin_call w serviceName =
     (\<not> SplitHostPort w serviceName \<and>
      (case DiscoverService w serviceName of Inl e \<Rightarrow> False | Inr instances \<Rightarrow> instances \<noteq> []))"

text \<open>
  A sequence of calls, one after the other on the same client; each call comes with the
  world it meets, its service name, its method name and its two messages.
\<close>
fun call_seq ::
  "RPCClient \<Rightarrow> (('req, 'resp) world \<times> string \<times> string \<times> 'req \<times> 'resp) list \<Rightarrow> RPCClient" where
  "call_seq c [] = c"
| "call_seq c ((w, serviceName, methodName, requestProto, responseProto) # rest) =
     call_seq (call_client (Call w c serviceName methodName requestProto responseProto)) rest"

section \<open>Actor\<close>

text \<open>
  The actor of \<^verbatim>\<open>infra/actor/actor.go\<close> with its goroutines: the processing loop
  \<^verbatim>\<open>run\<close> and the callers of \<^verbatim>\<open>Tell\<close>, \<^verbatim>\<open>Ask\<close> and \<^verbatim>\<open>Stop\<close>. Every goroutine has
  a program counter; one step is one channel operation, one \<^verbatim>\<open>select\<close> or one call of
  \<^verbatim>\<open>ProcessMessage\<close>, and a schedule (a list of actions) says which goroutine moves
  next and, at a \<^verbatim>\<open>select\<close>, which of its cases is taken. A case can be taken only
  when its communication can proceed, \<open>CaseDefault\<close> only when no other can; a step that
  cannot be taken is \<open>None\<close>: the goroutine is blocked there.
\<close>

datatype select_case = CaseMailbox | CaseReply | CaseError | CaseCtxDone | CaseStop | CaseDefault

text \<open>
  \<^verbatim>\<open>actorMessage\<close>: \<open>ask\<close> is \<open>None\<close> for a \<^verbatim>\<open>Tell\<close> (nil \<^verbatim>\<open>replyCh\<close>) and names the
  channel pair of the call for an \<^verbatim>\<open>Ask\<close>.
\<close>
record 'm actorMessage =
  message :: 'm
  ask :: "nat option"

text \<open>
  What one \<^verbatim>\<open>Ask\<close> call makes: \<^verbatim>\<open>replyCh\<close> and \<^verbatim>\<open>errorCh\<close>, each with a buffer of one
  value, and the caller's context (\<open>Some e\<close> once it is done, \<open>e\<close> its \<^verbatim>\<open>Err()\<close>).
  A reply is \<open>None\<close> for a nil interface value.
\<close>
record 'r ask_channels =
  replyCh :: "'r option list"
  replyCh_closed :: bool
  errorCh :: "string list"
  errorCh_closed :: bool
  ctx_err :: "string option"

text \<open>
  Where \<^verbatim>\<open>run\<close> is: at the \<^verbatim>\<open>select\<close> of line 215; about to call \<^verbatim>\<open>ProcessMessage\<close>
  on the message received (line 228); at the \<^verbatim>\<open>select\<close> that sends the error or the
  response of an \<^verbatim>\<open>Ask\<close> (line 232 or 238); before \<^verbatim>\<open>close(msg.replyCh)\<close> (line 244) and
  before \<^verbatim>\<open>close(msg.errorCh)\<close> (line 245); in the deferred function, before
  \<^verbatim>\<open>close(a.mailbox)\<close> (line 199) and in its loop over the messages left (lines 200-207);
  and after \<^verbatim>\<open>wg.Done()\<close>.
\<close>
datatype ('m, 'r) run_pc =
    RunSelect
  | RunProcess "'m actorMessage"
  | RunReply nat "'r option" "string option"
  | RunCloseReply nat
  | RunCloseError nat
  | RunDeferred
  | RunDrain
  | RunExited

text \<open>
  Where a caller is. \<open>AskReturned\<close> holds the two results of \<^verbatim>\<open>Ask\<close>, the response and the
  error (\<open>None\<close> is nil); \<open>CallerPanicked\<close> is a send on the closed mailbox or a second
  \<^verbatim>\<open>close(a.stopCh)\<close>.
\<close>
datatype ('m, 'r) caller_pc =
    TellSelect1 'm
  | TellSelect2 'm
  | TellReturned "string option"
  | AskSelect1 nat 'm
  | AskSelect2 nat
  | AskReturned "'r option" "string option"
  | StopClose
  | StopWait
  | StopReturned
  | CallerPanicked

record ('m, 'r) Actor =
  mailbox :: "'m actorMessage list"
  mailbox_cap :: nat
  mailbox_closed :: bool
  stopCh_closed :: bool
  wg :: nat
  run_pc :: "('m, 'r) run_pc"
  asks :: "nat \<rightharpoonup> 'r ask_channels"
  callers :: "nat \<rightharpoonup> ('m, 'r) caller_pc"
  processed :: "'m list"

definition defaultMailboxSize :: nat where
  "defaultMailboxSize = 128"

text \<open>\<^verbatim>\<open>NewActor\<close>, with the variadic \<^verbatim>\<open>mailboxSize\<close>; the loop is started.\<close>
definition NewActor :: "int list \<Rightarrow> ('m, 'r) Actor" where
  "NewActor mailboxSize =
     \<lparr>mailbox = [],
      mailbox_cap = (case mailboxSize of
                       [] \<Rightarrow> defaultMailboxSize
                     | n # ns \<Rightarrow> if n > 0 then nat n else defaultMailboxSize),
      mailbox_closed = False, stopCh_closed = False, wg = 1, run_pc = RunSelect,
      asks = Map.empty, callers = Map.empty, processed = []\<rparr>"

definition set_caller :: "('m, 'r) Actor \<Rightarrow> nat \<Rightarrow> ('m, 'r) caller_pc \<Rightarrow> ('m, 'r) Actor" where
  "set_caller a tid pc = a\<lparr>callers := (callers a)(tid \<mapsto> pc)\<rparr>"

text \<open>
  The case \<^verbatim>\<open>a.mailbox <- msg\<close> of a \<^verbatim>\<open>select\<close>: it can proceed when the buffer has
  room, and also when the mailbox is closed, where taking it panics.
\<close>
definition send_mailbox ::
  "('m, 'r) Actor \<Rightarrow> nat \<Rightarrow> 'm actorMessage \<Rightarrow> ('m, 'r) caller_pc \<Rightarrow> ('m, 'r) Actor option" where
  "send_mailbox a tid msg next =
     (if mailbox_closed a then Some (set_caller a tid CallerPanicked)
      else if length (mailbox a) < mailbox_cap a
      then Some (set_caller (a\<lparr>mailbox := mailbox a @ [msg]\<rparr>) tid next)
      else None)"

text \<open>
  The two \<^verbatim>\<open>select\<close> statements of \<^verbatim>\<open>Tell\<close> (lines 113 and 120) have the same cases;
  \<open>dflt\<close> is where the default case leads.
\<close>
definition tell_select ::
  "('m, 'r) Actor \<Rightarrow> nat \<Rightarrow> 'm \<Rightarrow> ('m, 'r) caller_pc \<Rightarrow> select_case \<Rightarrow> ('m, 'r) Actor option" where
  "tell_select a tid m dflt ch =
     (case ch of
        CaseMailbox \<Rightarrow> send_mailbox a tid \<lparr>message = m, ask = None\<rparr> (TellReturned None)
      | CaseStop \<Rightarrow>
          if stopCh_closed a
          then Some (set_caller a tid (TellReturned (Some ''actor stopped, cannot Tell message'')))
          else None
      | CaseDefault \<Rightarrow>
          if mailbox_closed a \<or> length (mailbox a) < mailbox_cap a \<or> stopCh_closed a
          then None
          else Some (set_caller a tid dflt)
      | _ \<Rightarrow> None)"

text \<open>The first \<^verbatim>\<open>select\<close> of \<^verbatim>\<open>Ask\<close> (line 156).\<close>
definition ask_select1 ::
  "('m, 'r) Actor \<Rightarrow> nat \<Rightarrow> nat \<Rightarrow> 'm \<Rightarrow> select_case \<Rightarrow> ('m, 'r) Actor option" where
  "ask_select1 a tid i m ch =
     (case ch of
        CaseMailbox \<Rightarrow> send_mailbox a tid \<lparr>message = m, ask = Some i\<rparr> (AskSelect2 i)
      | CaseStop \<Rightarrow>
          if stopCh_closed a
          then Some (set_caller a tid (AskReturned None (Some ''actor stopped, cannot Ask message'')))
          else None
      | CaseCtxDone \<Rightarrow>
          (case asks a i of
             None \<Rightarrow> None
           | Some c \<Rightarrow>
               (case ctx_err c of
                  None \<Rightarrow> None
                | Some e \<Rightarrow> Some (set_caller a tid (AskReturned None (Some e)))))
      | _ \<Rightarrow> None)"

text \<open>
  The second \<^verbatim>\<open>select\<close> of \<^verbatim>\<open>Ask\<close> (line 166). A receive can proceed when the buffer
  holds a value, and when the channel is closed, where it yields the zero value, nil.
\<close>
definition ask_select2 ::
  "('m, 'r) Actor \<Rightarrow> nat \<Rightarrow> nat \<Rightarrow> select_case \<Rightarrow> ('m, 'r) Actor option" where
  "ask_select2 a tid i ch =
     (case asks a i of
        None \<Rightarrow> None
      | Some c \<Rightarrow>
          (case ch of
             CaseReply \<Rightarrow>
               (case replyCh c of
                  response # rest \<Rightarrow>
                    Some (set_caller (a\<lparr>asks := (asks a)(i \<mapsto> c\<lparr>replyCh := rest\<rparr>)\<rparr>) tid
                            (AskReturned response None))
                | [] \<Rightarrow>
                    if replyCh_closed c then Some (set_caller a tid (AskReturned None None))
                    else None)
           | CaseError \<Rightarrow>
               (case errorCh c of
                  e # rest \<Rightarrow>
                    Some (set_caller (a\<lparr>asks := (asks a)(i \<mapsto> c\<lparr>errorCh := rest\<rparr>)\<rparr>) tid
                            (AskReturned None (Some e)))
                | [] \<Rightarrow>
                    if errorCh_closed c then Some (set_caller a tid (AskReturned None None))
                    else None)
           | CaseCtxDone \<Rightarrow>
               (case ctx_err c of
                  None \<Rightarrow> None
                | Some e \<Rightarrow> Some (set_caller a tid (AskReturned None (Some e))))
           | CaseStop \<Rightarrow>
               if stopCh_closed a
               then Some (set_caller a tid
                       (AskReturned None (Some ''actor stopped while Ask was waiting for a reply'')))
               else None
           | _ \<Rightarrow> None))"

text \<open>One step of the caller \<open>tid\<close>: of \<^verbatim>\<open>Tell\<close>, \<^verbatim>\<open>Ask\<close> or \<^verbatim>\<open>Stop\<close>.\<close>
definition caller_step ::
  "('m, 'r) Actor \<Rightarrow> nat \<Rightarrow> select_case \<Rightarrow> ('m, 'r) Actor option" where
  "caller_step a tid ch =
     (case callers a tid of
        None \<Rightarrow> None
      | Some pc \<Rightarrow>
          (case pc of
             TellSelect1 m \<Rightarrow> tell_select a tid m (TellSelect2 m) ch
           | TellSelect2 m \<Rightarrow>
               tell_select a tid m (TellReturned (Some ''actor mailbox is full'')) ch
           | AskSelect1 i m \<Rightarrow> ask_select1 a tid i m ch
           | AskSelect2 i \<Rightarrow> ask_select2 a tid i ch
           | StopClose \<Rightarrow>
               if stopCh_closed a then Some (set_caller a tid CallerPanicked)
               else Some (set_caller (a\<lparr>stopCh_closed := True\<rparr>) tid StopWait)
           | StopWait \<Rightarrow> if wg a = 0 then Some (set_caller a tid StopReturned) else None
           | _ \<Rightarrow> None))"

text \<open>
  One step of \<^verbatim>\<open>run\<close>, for a processor \<open>proc\<close> (\<^verbatim>\<open>ProcessMessage\<close>: the response and the
  error). \<open>RunSelect\<close> is the \<^verbatim>\<open>select\<close> of line 215, \<open>RunReply\<close> the one of line 232
  or 238, \<open>RunDeferred\<close> and \<open>RunDrain\<close> the deferred function (lines 196-209), whose
  send is guarded by a default case; \<^verbatim>\<open>wg.Done()\<close> is the last thing done.
\<close>
definition run_step ::
  "('m \<Rightarrow> 'r option \<times> string option) \<Rightarrow> ('m, 'r) Actor \<Rightarrow> select_case \<Rightarrow> ('m, 'r) Actor option" where
  "run_step proc a ch =
     (case run_pc a of
        RunSelect \<Rightarrow>
          (case ch of
             CaseMailbox \<Rightarrow>
               (case mailbox a of
                  msg # rest \<Rightarrow> Some (a\<lparr>mailbox := rest, run_pc := RunProcess msg\<rparr>)
                | [] \<Rightarrow> if mailbox_closed a then Some (a\<lparr>run_pc := RunDeferred\<rparr>) else None)
           | CaseStop \<Rightarrow> if stopCh_closed a then Some (a\<lparr>run_pc := RunDeferred\<rparr>) else None
           | _ \<Rightarrow> None)
      | RunProcess msg \<Rightarrow>
          (case proc (message msg) of
             (response, err) \<Rightarrow>
               Some (a\<lparr>processed := processed a @ [message msg],
                       run_pc := (case ask msg of
                                    Some i \<Rightarrow> RunReply i response err
                                  | None \<Rightarrow> RunSelect)\<rparr>))
      | RunReply i response err \<Rightarrow>
          (case asks a i of
             None \<Rightarrow> None
           | Some c \<Rightarrow>
               (case ch of
                  CaseError \<Rightarrow>
                    (case err of
                       Some e \<Rightarrow>
                         if errorCh c = [] \<and> \<not> errorCh_closed c
                         then Some (a\<lparr>asks := (asks a)(i \<mapsto> c\<lparr>errorCh := [e]\<rparr>),
                                      run_pc := RunCloseReply i\<rparr>)
                         else None
                     | None \<Rightarrow> None)
                | CaseReply \<Rightarrow>
                    (case err of
                       Some e \<Rightarrow> None
                     | None \<Rightarrow>
                         if replyCh c = [] \<and> \<not> replyCh_closed c
                         then Some (a\<lparr>asks := (asks a)(i \<mapsto> c\<lparr>replyCh := [response]\<rparr>),
                                      run_pc := RunCloseReply i\<rparr>)
                         else None)
                | CaseStop \<Rightarrow>
                    if stopCh_closed a then Some (a\<lparr>run_pc := RunCloseReply i\<rparr>) else None
                | CaseCtxDone \<Rightarrow>
                    if ctx_err c \<noteq> None then Some (a\<lparr>run_pc := RunCloseReply i\<rparr>) else None
                | _ \<Rightarrow> None))
      | RunCloseReply i \<Rightarrow>
          (case asks a i of
             None \<Rightarrow> None
           | Some c \<Rightarrow>
               Some (a\<lparr>asks := (asks a)(i \<mapsto> c\<lparr>replyCh_closed := True\<rparr>),
                       run_pc := RunCloseError i\<rparr>))
      | RunCloseError i \<Rightarrow>
          (case asks a i of
             None \<Rightarrow> None
           | Some c \<Rightarrow>
               Some (a\<lparr>asks := (asks a)(i \<mapsto> c\<lparr>errorCh_closed := True\<rparr>),
                       run_pc := RunSelect\<rparr>))
      | RunDeferred \<Rightarrow> Some (a\<lparr>mailbox_closed := True, run_pc := RunDrain\<rparr>)
      | RunDrain \<Rightarrow>
          (case mailbox a of
             [] \<Rightarrow> Some (a\<lparr>wg := wg a - 1, run_pc := RunExited\<rparr>)
           | msg # rest \<Rightarrow>
               (case ask msg of
                  None \<Rightarrow> Some (a\<lparr>mailbox := rest\<rparr>)
                | Some i \<Rightarrow>
                    (case asks a i of
                       None \<Rightarrow> None
                     | Some c \<Rightarrow>
                         if errorCh c = [] \<and> \<not> errorCh_closed c
                         then Some (a\<lparr>mailbox := rest,
                                      asks := (asks a)(i \<mapsto> c\<lparr>errorCh :=
                                        [''actor stopped before processing Ask message'']\<rparr>)\<rparr>)
                         else Some (a\<lparr>mailbox := rest\<rparr>))))
      | RunExited \<Rightarrow> None)"

text \<open>
  The actions of a schedule: a goroutine calls \<^verbatim>\<open>Tell\<close>, \<^verbatim>\<open>Ask\<close> (with the number of
  its channel pair and its context, done or not) or \<^verbatim>\<open>Stop\<close>; a caller or the loop takes
  a step; the context of an \<^verbatim>\<open>Ask\<close> becomes done. A message is \<open>None\<close> for nil.
\<close>
datatype 'm action =
    CallTell nat "'m option"
  | CallAsk nat nat "'m option" "string option"
  | CallStop nat
  | Caller nat select_case
  | Loop select_case
  | CtxDone nat string

definition step ::
  "('m \<Rightarrow> 'r option \<times> string option) \<Rightarrow> ('m, 'r) Actor \<Rightarrow> 'm action \<Rightarrow> ('m, 'r) Actor option" where
  "step proc a act =
     (case act of
        CallTell tid m \<Rightarrow>
          if callers a tid \<noteq> None then None
          else (case m of
                  None \<Rightarrow> Some (set_caller a tid (TellReturned (Some ''cannot Tell a nil message'')))
                | Some m' \<Rightarrow> Some (set_caller a tid (TellSelect1 m')))
      | CallAsk tid i m ctx \<Rightarrow>
          if callers a tid \<noteq> None \<or> asks a i \<noteq> None then None
          else (case m of
                  None \<Rightarrow>
                    Some (set_caller a tid (AskReturned None (Some ''cannot Ask a nil message'')))
                | Some m' \<Rightarrow>
                    Some (set_caller
                            (a\<lparr>asks := (asks a)(i \<mapsto>
                                 \<lparr>replyCh = [], replyCh_closed = False, errorCh = [],
                                  errorCh_closed = False, ctx_err = ctx\<rparr>)\<rparr>)
                            tid (AskSelect1 i m')))
      | CallStop tid \<Rightarrow>
          if callers a tid \<noteq> None then None else Some (set_caller a tid StopClose)
      | Caller tid ch \<Rightarrow> caller_step a tid ch
      | Loop ch \<Rightarrow> run_step proc a ch
      | CtxDone i e \<Rightarrow>
          (case asks a i of
             None \<Rightarrow> None
           | Some c \<Rightarrow>
               if ctx_err c = None then Some (a\<lparr>asks := (asks a)(i \<mapsto> c\<lparr>ctx_err := Some e\<rparr>)\<rparr>)
               else None))"

text \<open>Running a schedule; \<open>None\<close> when one of its actions cannot be taken.\<close>
fun exec ::
  "('m \<Rightarrow> 'r option \<times> string option) \<Rightarrow> ('m, 'r) Actor \<Rightarrow> 'm action list \<Rightarrow> ('m, 'r) Actor option" where
  "exec proc a [] = Some a"
| "exec proc a (act # acts) =
     (case step proc a act of None \<Rightarrow> None | Some a' \<Rightarrow> exec proc a' acts)"

text \<open>Where the caller \<open>tid\<close> is after a schedule, and the messages processed by then.\<close>
definition exec_caller ::
  "('m \<Rightarrow> 'r option \<times> string option) \<Rightarrow> ('m, 'r) Actor \<Rightarrow> 'm action list \<Rightarrow> nat \<Rightarrow>
   ('m, 'r) caller_pc option" where
  "exec_caller proc a acts tid =
     (case exec proc a acts of None \<Rightarrow> None | Some a' \<Rightarrow> callers a' tid)"

definition exec_processed ::
  "('m \<Rightarrow> 'r option \<times> string option) \<Rightarrow> ('m, 'r) Actor \<Rightarrow> 'm action list \<Rightarrow> 'm list option" where
  "exec_processed proc a acts =
     (case exec proc a acts of None \<Rightarrow> None | Some a' \<Rightarrow> Some (processed a'))"

text \<open>A processor for the examples: it answers every message with the reply \<open>True\<close>.\<close>
definition reply_true :: "unit \<Rightarrow> bool option \<times> string option" where
  "reply_true m = (Some True, None)"

section \<open>The frame codec\<close>

lemma be32_roundtrip: "be32_word (be32_bytes w) = w"
  unfolding be32_word_def be32_bytes_def
  apply (rule bit_word_eqI)
  subgoal for n
    by (cases "n < 8"; cases "n < 16"; cases "n < 24"; auto simp: bit_simps)
  done

lemma length_be32 [simp]: "length (be32_bytes w) = 4"
  by (simp add: be32_bytes_def)

lemma length_bytes_of_string [simp]: "length (bytes_of_string s) = length s"
  by (simp add: bytes_of_string_def)

lemma sint_int32_of_len: "n < 2 ^ 31 \<Longrightarrow> sint (int32_of_len n) = int n"
  unfolding int32_of_len_def
  by (simp add: signed_of_nat signed_take_bit_int_eq_self)

lemma char_byte_roundtrip: "char_of_byte (byte_of_char c) = c"
  unfolding char_of_byte_def byte_of_char_def
  by (simp add: unat_of_nat)

lemma string_bytes_roundtrip: "string_of_bytes (bytes_of_string s) = s"
  by (simp add: string_of_bytes_def bytes_of_string_def char_byte_roundtrip o_def)

lemma reader_ReadInt32_be32: "reader_ReadInt32 (be32_bytes w @ r) = Inr (w, r)"
proof -
  have "reader_ReadFull (be32_bytes w @ r) 4 = Inr (be32_bytes w, r)"
    by (simp add: reader_ReadFull_def be32_bytes_def)
  then show ?thesis by (simp add: reader_ReadInt32_def be32_roundtrip)
qed

lemma reader_ReadFull_append: "reader_ReadFull (xs @ r) (length xs) = Inr (xs, r)"
  by (cases xs) (simp_all add: reader_ReadFull_def)

lemma conn_ReadInt32_be32:
  "conn_ReadInt32 (c\<lparr>incoming := be32_bytes w @ r\<rparr>) = Inr (w, c\<lparr>incoming := r\<rparr>)"
proof -
  have "conn_ReadFull (c\<lparr>incoming := be32_bytes w @ r\<rparr>) 4
        = Inr (be32_bytes w, c\<lparr>incoming := r\<rparr>)"
    by (simp add: conn_ReadFull_def be32_bytes_def)
  then show ?thesis by (simp add: conn_ReadInt32_def be32_roundtrip)
qed

lemma conn_ReadFull_append:
  "xs \<noteq> [] \<Longrightarrow>
   conn_ReadFull (c\<lparr>incoming := xs @ r\<rparr>) (length xs) = Inr (xs, c\<lparr>incoming := r\<rparr>)"
  by (simp add: conn_ReadFull_def)

lemma length_frameBuffer:
  "length (frameBuffer name payload) = 8 + length name + length payload"
  by (simp add: frameBuffer_def)

lemma frameBuffer_nonempty: "frameBuffer name payload \<noteq> []"
proof
  assume "frameBuffer name payload = []"
  then have "length (frameBuffer name payload) = 0" by simp
  then show False by (simp add: length_frameBuffer)
qed

lemma parseFrame_frameBuffer:
  assumes "length name < 2 ^ 31" and "length payload < 2 ^ 31"
  shows "parseFrame (frameBuffer name payload @ extra) = Inr (name, payload)"
proof -
  have n: "sint (int32_of_len (length name)) = int (length name)"
    using assms(1) by (simp add: sint_int32_of_len)
  have p: "sint (int32_of_len (length payload)) = int (length payload)"
    using assms(2) by (simp add: sint_int32_of_len)
  have r1: "reader_ReadFull (bytes_of_string name @ rest) (length name)
            = Inr (bytes_of_string name, rest)" for rest
    using reader_ReadFull_append [of "bytes_of_string name" rest] by simp
  show ?thesis
    unfolding parseFrame_def frameBuffer_def
    by (simp add: reader_ReadInt32_be32 n p r1 reader_ReadFull_append string_bytes_roundtrip)
qed

lemma readFrame_encodeFrame:
  assumes "8 + length name + length payload < 2 ^ 31"
  shows "readFrame (c\<lparr>incoming := encodeFrame name payload @ rest\<rparr>)
         = Inr (name, payload, c\<lparr>incoming := rest\<rparr>)"
proof -
  let ?fb = "frameBuffer name payload"
  have len: "length ?fb < 2 ^ 31"
    using assms by (simp add: length_frameBuffer)
  have tot: "sint (int32_of_len (length ?fb)) = int (length ?fb)"
    using len by (rule sint_int32_of_len)
  have pos: "0 < length ?fb"
    by (simp add: length_frameBuffer)
  have pf: "parseFrame ?fb = Inr (name, payload)"
    using parseFrame_frameBuffer [of name payload "[]"] assms by simp
  show ?thesis
    unfolding readFrame_def encodeFrame_def
    using pos
    by (simp add: conn_ReadInt32_be32 tot conn_ReadFull_append frameBuffer_nonempty pf)
qed

lemma readFrame_total_overflow:
  assumes "8 + length name + length payload = 2 ^ 31"
  shows "readFrame (c\<lparr>incoming := encodeFrame name payload @ rest\<rparr>)
         = Inl (InvalidTotalLen (- 2147483648))"
proof -
  have "length (frameBuffer name payload) = 2147483648"
    using assms by (simp add: length_frameBuffer)
  then have "int32_of_len (length (frameBuffer name payload)) = (- 2147483648 :: int32)"
    by (simp add: int32_of_len_def)
  then show ?thesis
    unfolding readFrame_def encodeFrame_def
    by (simp add: conn_ReadInt32_be32)
qed

text \<open>
  C1, as stated, fails: a method name of 2147483640 bytes and an empty payload both have
  lengths that fit in a signed 32-bit integer, but the frame body is 2147483648 bytes long,
  the writer's \<^verbatim>\<open>int32(requestFrameBuffer.Len())\<close> wraps to -2147483648, and the
  reader rejects the total length instead of returning the pair.
\<close>
theorem frame_roundtrip_counterexample:
  "length (replicate 2147483640 (CHR ''m'')) < 2 ^ 31 \<and> length ([] :: byte list) < 2 ^ 31 \<and>
   readFrame (\<lparr>incoming = [], read_fault = None, write_script = [], sent = [], closed = False\<rparr>
                \<lparr>incoming := encodeFrame (replicate 2147483640 (CHR ''m'')) [] @ []\<rparr>)
   = Inl (InvalidTotalLen (- 2147483648))"
proof -
  have "8 + length (replicate 2147483640 (CHR ''m'')) + length ([] :: byte list) = 2 ^ 31"
    by (simp only: length_replicate list.size) simp
  from readFrame_total_overflow [OF this] show ?thesis
    by (simp only: length_replicate list.size) simp
qed

text \<open>
  C1, amended: frame codec round-trip. For every name (the method name of a request frame,
  the error string of a response frame) and payload whose frame body, 8 bytes of length
  fields plus the two, fits in a signed 32-bit integer, the bytes a writer puts on the wire
  (total length, name length, name, payload length, payload, the integers 4-byte big-endian)
  are read back by a reader as exactly the name and the payload, whatever follows them on
  the connection; an empty payload is read as the empty byte sequence.
\<close>
theorem frame_roundtrip:
  "8 + length name + length payload < 2 ^ 31 \<Longrightarrow>
   readFrame (c\<lparr>incoming := encodeFrame name payload @ rest\<rparr>)
     = Inr (name, payload, c\<lparr>incoming := rest\<rparr>) \<and>
   readFrame (c\<lparr>incoming := encodeFrame name [] @ rest\<rparr>)
     = Inr (name, [], c\<lparr>incoming := rest\<rparr>)"
  using readFrame_encodeFrame [where name = name and payload = payload and c = c and rest = rest]
    readFrame_encodeFrame [where name = name and payload = "[]" and c = c and rest = rest]
  by simp

theorem frame_roundtrip_witness:
  "readFrame \<lparr>incoming = encodeFrame ''Ping'' [1, 2, 3] @ [9], read_fault = None,
              write_script = [], sent = [], closed = False\<rparr>
   = Inr (''Ping'', [1, 2, 3],
          \<lparr>incoming = [9], read_fault = None, write_script = [], sent = [], closed = False\<rparr>)"
  using frame_roundtrip [where name = "''Ping''" and payload = "[1, 2, 3]" and rest = "[9]"
      and c = "\<lparr>incoming = [], read_fault = None, write_script = [], sent = [],
                closed = False\<rparr>"]
  by simp

section \<open>The server loop\<close>

lemma readFrame_keeps:
  "readFrame c = Inr (m, p, c1) \<Longrightarrow> c1 = c\<lparr>incoming := incoming c1\<rparr>"
  by (auto simp: readFrame_def conn_ReadInt32_def conn_ReadFull_def
        split: sum.splits if_splits prod.splits)

lemma two_writes:
  assumes "next_writes_succeed 2 c"
  shows "\<exists>c'. conn_Write c a = Inr c' \<and>
           conn_Write c' b = Inr (c\<lparr>write_script := drop 2 (write_script c), sent := sent c @ a @ b\<rparr>)"
proof (cases "write_script c")
  case Nil
  then show ?thesis by (cases c) (simp add: conn_Write_def)
next
  case (Cons x xs)
  note outer = this
  show ?thesis
  proof (cases xs)
    case Nil
    with outer assms show ?thesis
      by (cases c) (simp add: conn_Write_def next_writes_succeed_def)
  next
    case (Cons y ys)
    with outer assms show ?thesis
      by (cases c) (simp add: conn_Write_def next_writes_succeed_def)
  qed
qed


lemma handleConnection_step:
  assumes "readFrame c = Inr (m, p, c1)"
      and "dispatch s m p = (resp, calls)"
      and "next_writes_succeed 2 c"
  shows "handleConnection s c tr
         = handleConnection s
             (c\<lparr>incoming := incoming c1, write_script := drop 2 (write_script c),
                sent := sent c @ encodeFrame (Error resp) (Payload resp)\<rparr>)
             (tr @ calls)"
proof -
  define fb where "fb = frameBuffer (Error resp) (Payload resp)"
  have c1: "c1 = c\<lparr>incoming := incoming c1\<rparr>"
    using assms(1) by (rule readFrame_keeps)
  have "write_script c1 = write_script c" "sent c1 = sent c"
    by (subst c1, simp)+
  then have ws: "next_writes_succeed 2 c1"
    using assms(3) by (simp add: next_writes_succeed_def)
  from two_writes [OF ws, of "be32_bytes (int32_of_len (length fb))" fb]
  obtain c2 where w1: "conn_Write c1 (be32_bytes (int32_of_len (length fb))) = Inr c2"
    and w2: "conn_Write c2 fb
             = Inr (c1\<lparr>write_script := drop 2 (write_script c1),
                      sent := sent c1 @ be32_bytes (int32_of_len (length fb)) @ fb\<rparr>)"
    by blast
  have eq: "c1\<lparr>write_script := drop 2 (write_script c1),
              sent := sent c1 @ be32_bytes (int32_of_len (length fb)) @ fb\<rparr>
        = c\<lparr>incoming := incoming c1, write_script := drop 2 (write_script c),
             sent := sent c @ encodeFrame (Error resp) (Payload resp)\<rparr>"
    by (subst c1, subst (2) c1, subst (3) c1) (simp add: encodeFrame_def fb_def)
  have "handleConnection s c tr
        = handleConnection s (c1\<lparr>write_script := drop 2 (write_script c1),
              sent := sent c1 @ be32_bytes (int32_of_len (length fb)) @ fb\<rparr>) (tr @ calls)"
    by (subst handleConnection.simps) (simp add: assms(1,2) w1 w2 flip: fb_def)
  with eq show ?thesis by simp
qed












section \<open>The client call\<close>

lemma sublist_witness: "ys = ps @ xs @ ss \<Longrightarrow> sublist xs ys"
  by (auto simp: sublist_def)

lemma conn_Write_closed: "conn_Write c bs = Inr c' \<Longrightarrow> closed c' = closed c"
  by (auto simp: conn_Write_def split: list.splits option.splits)

lemma sendRequest_closed: "sendRequest c fb = Inr c' \<Longrightarrow> closed c' = closed c"
  by (auto simp: sendRequest_def dest: conn_Write_closed split: sum.splits)

lemma readFrame_closed: "readFrame c = Inr (m, p, c1) \<Longrightarrow> closed c1 = closed c"
  using readFrame_keeps [of c m p c1] by (metis conn.select_convs(5) conn.surjective conn.update_convs(1))

lemma getConnection_pool:
  "getConnection w c t = (Inr conn, c2) \<Longrightarrow> \<exists>pool. pools c2 t = Some pool"
  by (auto simp: getConnection_def Let_def split: list.splits sum.splits)

lemma Call_exchange:
  assumes "resolveTarget w c serviceName = (Inr targetAddr, c1)"
      and "getConnection w c1 targetAddr = (Inr conn, c2)"
      and "exchange w serviceName methodName targetAddr conn requestProto responseProto
           = (ex, healthy, conn', resp)"
  shows "Call w c serviceName methodName requestProto responseProto =
         (if healthy
          then \<lparr>call_exit = ex, call_client = fst (returnConnection c2 targetAddr (Some conn')),
                call_response = resp, call_connHealthy = Some True,
                call_conn = snd (returnConnection c2 targetAddr (Some conn'))\<rparr>
          else \<lparr>call_exit = ex, call_client = c2, call_response = resp,
                call_connHealthy = Some False, call_conn = Some (conn_Close conn')\<rparr>)"
  using assms by (simp add: Call_def split: prod.splits)

lemma returnConnection_pool:
  assumes "pools c t = Some pool"
  shows "returnConnection c t (Some cn) =
         (if length (buf pool) < cap pool
          then (c\<lparr>pools := (pools c)(t \<mapsto> pool\<lparr>buf := buf pool @ [cn]\<rparr>)\<rparr>, Some cn)
          else (c, Some (conn_Close cn)))"
  using assms by (simp add: returnConnection_def)

text \<open>
  C4: an application error preserves the connection. For every \<^verbatim>\<open>Call\<close> whose request
  frame is sent and which reads a well-formed response frame with a non-empty error
  string, the error returned is
  \<^verbatim>\<open>RPC call to method '<method>' on service '<service>' at '<target>' failed: <error>\<close>,
  which contains the service name, the method name, the resolved target address and the
  server's error string; \<^verbatim>\<open>connHealthy\<close> is still true and the call has not closed the
  connection; it is appended to the pool of that endpoint when the pool has room, and
  closed only when the pool is at capacity.
\<close>
theorem application_error_keeps_connection:
  assumes "resolveTarget w c serviceName = (Inr targetAddr, c1)"
      and "getConnection w c1 targetAddr = (Inr conn, c2)"
      and "Marshal w requestProto = Inr reqPayloadBytes"
      and "sendRequest conn (frameBuffer methodName reqPayloadBytes) = Inr conn2"
      and "readFrame conn2 = Inr (rpcErrStr, resPayloadBytes, conn3)"
      and "rpcErrStr \<noteq> []"
  shows "let r = Call w c serviceName methodName requestProto responseProto;
             msg = ''RPC call to method '' @ quoted methodName @ '' on service '' @
                   quoted serviceName @ '' at '' @ quoted targetAddr @ '' failed: '' @ rpcErrStr
         in call_exit r = Returned (Some msg) \<and>
            sublist serviceName msg \<and> sublist methodName msg \<and> sublist targetAddr msg \<and>
            sublist rpcErrStr msg \<and>
            call_connHealthy r = Some True \<and> closed conn3 = closed conn \<and>
            (\<exists>pool. pools c2 targetAddr = Some pool \<and>
               (if length (buf pool) < cap pool
                then call_conn r = Some conn3 \<and>
                     call_client r = c2\<lparr>pools := (pools c2)(targetAddr \<mapsto> pool\<lparr>buf := buf pool @ [conn3]\<rparr>)\<rparr>
                else call_conn r = Some (conn_Close conn3) \<and> call_client r = c2))"
proof -
  define msg where "msg = ''RPC call to method '' @ quoted methodName @ '' on service '' @
                   quoted serviceName @ '' at '' @ quoted targetAddr @ '' failed: '' @ rpcErrStr"
  define r where "r = Call w c serviceName methodName requestProto responseProto"
  have ex: "exchange w serviceName methodName targetAddr conn requestProto responseProto
            = (Returned (Some msg), True, conn3, responseProto)"
    using assms(3-6) by (simp add: exchange_def msg_def)
  obtain pool where pool: "pools c2 targetAddr = Some pool"
    using getConnection_pool [OF assms(2)] by blast
  have r: "r = \<lparr>call_exit = Returned (Some msg),
                call_client = fst (returnConnection c2 targetAddr (Some conn3)),
                call_response = responseProto, call_connHealthy = Some True,
                call_conn = snd (returnConnection c2 targetAddr (Some conn3))\<rparr>"
    unfolding r_def using Call_exchange [OF assms(1,2) ex] by simp
  have s1: "sublist serviceName msg"
    by (rule sublist_witness [where ps = "''RPC call to method '' @ quoted methodName @ '' on service '' @ [CHR 0x27]"
          and ss = "[CHR 0x27] @ '' at '' @ quoted targetAddr @ '' failed: '' @ rpcErrStr"])
       (simp add: msg_def quoted_def)
  have s2: "sublist methodName msg"
    by (rule sublist_witness [where ps = "''RPC call to method '' @ [CHR 0x27]"
          and ss = "[CHR 0x27] @ '' on service '' @ quoted serviceName @ '' at '' @ quoted targetAddr @ '' failed: '' @ rpcErrStr"])
       (simp add: msg_def quoted_def)
  have s3: "sublist targetAddr msg"
    by (rule sublist_witness [where ps = "''RPC call to method '' @ quoted methodName @ '' on service '' @ quoted serviceName @ '' at '' @ [CHR 0x27]"
          and ss = "[CHR 0x27] @ '' failed: '' @ rpcErrStr"])
       (simp add: msg_def quoted_def)
  have s4: "sublist rpcErrStr msg"
    by (rule sublist_witness [where ps = "''RPC call to method '' @ quoted methodName @ '' on service '' @ quoted serviceName @ '' at '' @ quoted targetAddr @ '' failed: ''"
          and ss = "[]"])
       (simp add: msg_def quoted_def)
  have cl: "closed conn3 = closed conn"
    using sendRequest_closed [OF assms(4)] readFrame_closed [OF assms(5)] by simp
  have "call_exit r = Returned (Some msg) \<and>
            sublist serviceName msg \<and> sublist methodName msg \<and> sublist targetAddr msg \<and>
            sublist rpcErrStr msg \<and>
            call_connHealthy r = Some True \<and> closed conn3 = closed conn \<and>
            (\<exists>pool. pools c2 targetAddr = Some pool \<and>
               (if length (buf pool) < cap pool
                then call_conn r = Some conn3 \<and>
                     call_client r = c2\<lparr>pools := (pools c2)(targetAddr \<mapsto> pool\<lparr>buf := buf pool @ [conn3]\<rparr>)\<rparr>
                else call_conn r = Some (conn_Close conn3) \<and> call_client r = c2))"
    using s1 s2 s3 s4 cl pool by (simp add: r returnConnection_pool [OF pool])
  then show ?thesis
    unfolding Let_def r_def msg_def .
qed

theorem application_error_keeps_connection_witness:
  "call_exit (Call \<lparr>SplitHostPort = (\<lambda>s. True), DiscoverService = (\<lambda>s. Inl []),
                    DialTimeout = (\<lambda>a. Inr \<lparr>incoming = encodeFrame ''boom'' [], read_fault = None,
                                            write_script = [], sent = [], closed = False\<rparr>),
                    Marshal = (\<lambda>q. Inr [1]), Unmarshal = (\<lambda>b r. (None, r))\<rparr>
               (NewRPCClient None 2) ''h:1'' ''Ping'' () ())
   = Returned (Some (''RPC call to method '' @ quoted ''Ping'' @ '' on service '' @
                     quoted ''h:1'' @ '' at '' @ quoted ''h:1'' @ '' failed: boom''))"
proof -
  let ?conn = "\<lparr>incoming = encodeFrame ''boom'' [], read_fault = None,
                 write_script = [], sent = [], closed = False\<rparr>"
  let ?w = "\<lparr>SplitHostPort = (\<lambda>s. True), DiscoverService = (\<lambda>s. Inl []),
             DialTimeout = (\<lambda>a. Inr ?conn),
             Marshal = (\<lambda>q. Inr [1]), Unmarshal = (\<lambda>b r. (None, r))\<rparr> :: (unit, unit) world"
  let ?c = "NewRPCClient None 2"
  let ?fb = "frameBuffer ''Ping'' [1]"
  let ?conn2 = "?conn\<lparr>sent := be32_bytes (int32_of_len (length ?fb)) @ ?fb\<rparr>"
  have h1: "resolveTarget ?w ?c ''h:1'' = (Inr ''h:1'', ?c)"
    by (simp add: resolveTarget_def)
  have h2: "getConnection ?w ?c ''h:1''
            = (Inr ?conn, ?c\<lparr>pools := (pools ?c)(''h:1'' \<mapsto> \<lparr>cap = 2, buf = []\<rparr>)\<rparr>)"
    by (simp add: getConnection_def NewRPCClient_def)
  have h3: "Marshal ?w () = Inr [1]"
    by simp
  have h4: "sendRequest ?conn ?fb = Inr ?conn2"
    by (simp add: sendRequest_def conn_Write_def)
  have h5: "readFrame ?conn2 = Inr (''boom'', [], ?conn2\<lparr>incoming := []\<rparr>)"
    using readFrame_encodeFrame [where name = "''boom''" and payload = "[]" and rest = "[]" and c = ?conn2]
    by simp
  have h6: "''boom'' \<noteq> []" by simp
  from application_error_keeps_connection [OF h1 h2 h3 h4 h5 h6, of "()"] show ?thesis
    by (simp add: Let_def)
qed

text \<open>
  C5: I/O-failure disposal. For every \<^verbatim>\<open>Call\<close> in which a write of the request frame to
  the connection fails, or reading the response's total length or frame data from the
  connection fails, the connection is marked unhealthy, it is closed, the client is left
  as \<^verbatim>\<open>getConnection\<close> left it (the connection is not put back into the pool), and the
  error returned is the one of the failing step: it names the phase (\<open>send request\<close>
  for a failed write, \<open>read\<close>... \<open>response\<close> for a failed read), the target
  address and the method name.
\<close>
theorem io_failure_disposes_connection:
  assumes "resolveTarget w c serviceName = (Inr targetAddr, c1)"
      and "getConnection w c1 targetAddr = (Inr conn, c2)"
      and "Marshal w requestProto = Inr reqPayloadBytes"
      and "call_io_failure conn (frameBuffer methodName reqPayloadBytes) = Some f"
  shows "let r = Call w c serviceName methodName requestProto responseProto
         in call_exit r =
              (case f of
                 Inl e \<Rightarrow> Returned (Some (send_error_text methodName targetAddr e))
               | Inr e \<Rightarrow> read_error_exit methodName targetAddr e) \<and>
            (\<exists>msg. call_exit r = Returned (Some msg) \<and>
               sublist methodName msg \<and> sublist targetAddr msg \<and>
               (case f of
                  Inl e \<Rightarrow> sublist ''send request'' msg
                | Inr e \<Rightarrow> sublist ''read'' msg \<and> sublist ''response'' msg)) \<and>
            call_connHealthy r = Some False \<and>
            (\<exists>cx. call_conn r = Some cx \<and> closed cx) \<and>
            call_client r = c2"
proof -
  define fb where "fb = frameBuffer methodName reqPayloadBytes"
  define r where "r = Call w c serviceName methodName requestProto responseProto"
  define ex where "ex = (case f of
                 Inl e \<Rightarrow> Returned (Some (send_error_text methodName targetAddr e))
               | Inr e \<Rightarrow> read_error_exit methodName targetAddr e)"
  have f: "call_io_failure conn fb = Some f"
    using assms(4) by (simp add: fb_def)
  have "\<exists>cx. exchange w serviceName methodName targetAddr conn requestProto responseProto
            = (ex, False, cx, responseProto)"
    using f assms(3)
    by (auto simp: exchange_def call_io_failure_def ex_def simp flip: fb_def
          split: sum.splits prod.splits frame_error.splits)
  then obtain cx where
    "exchange w serviceName methodName targetAddr conn requestProto responseProto
            = (ex, False, cx, responseProto)" ..
  from Call_exchange [OF assms(1,2) this]
  have r: "r = \<lparr>call_exit = ex, call_client = c2, call_response = responseProto,
                call_connHealthy = Some False, call_conn = Some (conn_Close cx)\<rparr>"
    by (simp add: r_def)
  have msg: "\<exists>msg. ex = Returned (Some msg) \<and>
               sublist methodName msg \<and> sublist targetAddr msg \<and>
               (case f of
                  Inl e \<Rightarrow> sublist ''send request'' msg
                | Inr e \<Rightarrow> sublist ''read'' msg \<and> sublist ''response'' msg)"
  proof (cases f)
    case (Inl se)
    show ?thesis
    proof (cases se)
      case (SendTotalLen e)
      define msg where "msg = ''RPCClient: failed to send request total frame length for method '' @ methodName @
          '' to '' @ targetAddr @ '': '' @ io_error_msg e"
      have "ex = Returned (Some msg)"
        by (simp add: ex_def Inl SendTotalLen send_error_text_def msg_def)
      moreover have "sublist methodName msg"
        by (rule sublist_witness [where ps = "''RPCClient: failed to send request total frame length for method ''"
              and ss = "'' to '' @ targetAddr @ '': '' @ io_error_msg e"]) (simp add: msg_def)
      moreover have "sublist targetAddr msg"
        by (rule sublist_witness [where ps = "''RPCClient: failed to send request total frame length for method '' @ methodName @ '' to ''"
              and ss = "'': '' @ io_error_msg e"]) (simp add: msg_def)
      moreover have "sublist ''send request'' msg"
        by (rule sublist_witness [where ps = "''RPCClient: failed to ''"
              and ss = "'' total frame length for method '' @ methodName @ '' to '' @ targetAddr @ '': '' @ io_error_msg e"]) (simp add: msg_def)
      ultimately show ?thesis using Inl by auto
    next
      case (SendFrame e)
      define msg where "msg = ''RPCClient: failed to send request frame for method '' @ methodName @
          '' to '' @ targetAddr @ '': '' @ io_error_msg e"
      have "ex = Returned (Some msg)"
        by (simp add: ex_def Inl SendFrame send_error_text_def msg_def)
      moreover have "sublist methodName msg"
        by (rule sublist_witness [where ps = "''RPCClient: failed to send request frame for method ''"
              and ss = "'' to '' @ targetAddr @ '': '' @ io_error_msg e"]) (simp add: msg_def)
      moreover have "sublist targetAddr msg"
        by (rule sublist_witness [where ps = "''RPCClient: failed to send request frame for method '' @ methodName @ '' to ''"
              and ss = "'': '' @ io_error_msg e"]) (simp add: msg_def)
      moreover have "sublist ''send request'' msg"
        by (rule sublist_witness [where ps = "''RPCClient: failed to ''"
              and ss = "'' frame for method '' @ methodName @ '' to '' @ targetAddr @ '': '' @ io_error_msg e"]) (simp add: msg_def)
      ultimately show ?thesis using Inl by auto
    qed
  next
    case (Inr fe)
    have fe: "(\<exists>e. fe = TotalLenRead e) \<or> (\<exists>e. fe = FrameDataRead e)"
      using f Inr
      by (auto simp: call_io_failure_def split: sum.splits prod.splits frame_error.splits)
    then show ?thesis
    proof (elim disjE exE)
      fix e assume t: "fe = TotalLenRead e"
      show ?thesis
      proof (cases "e = EOF \<or> e = ErrUnexpectedEOF")
        case True
        define msg where "msg = ''RPCClient: connection closed by server '' @ targetAddr @
                 '' while reading response total frame length for method '' @ methodName @
                 '': '' @ io_error_msg e"
        have "ex = Returned (Some msg)"
          using True by (simp add: ex_def Inr t read_error_exit_def msg_def)
        moreover have "sublist methodName msg"
          by (rule sublist_witness [where ps = "''RPCClient: connection closed by server '' @ targetAddr @
                 '' while reading response total frame length for method ''"
                and ss = "'': '' @ io_error_msg e"]) (simp add: msg_def)
        moreover have "sublist targetAddr msg"
          by (rule sublist_witness [where ps = "''RPCClient: connection closed by server ''"
                and ss = "'' while reading response total frame length for method '' @ methodName @
                 '': '' @ io_error_msg e"]) (simp add: msg_def)
        moreover have "sublist ''read'' msg"
          by (rule sublist_witness [where ps = "''RPCClient: connection closed by server '' @ targetAddr @ '' while ''"
                and ss = "''ing response total frame length for method '' @ methodName @
                 '': '' @ io_error_msg e"]) (simp add: msg_def)
        moreover have "sublist ''response'' msg"
          by (rule sublist_witness [where ps = "''RPCClient: connection closed by server '' @ targetAddr @ '' while reading ''"
                and ss = "'' total frame length for method '' @ methodName @
                 '': '' @ io_error_msg e"]) (simp add: msg_def)
        ultimately show ?thesis using Inr by auto
      next
        case False
        define msg where "msg = ''RPCClient: failed to read response total frame length from '' @
                 targetAddr @ '' for method '' @ methodName @ '': '' @ io_error_msg e"
        have "ex = Returned (Some msg)"
          using False by (simp add: ex_def Inr t read_error_exit_def msg_def)
        moreover have "sublist methodName msg"
          by (rule sublist_witness [where ps = "''RPCClient: failed to read response total frame length from '' @
                 targetAddr @ '' for method ''"
                and ss = "'': '' @ io_error_msg e"]) (simp add: msg_def)
        moreover have "sublist targetAddr msg"
          by (rule sublist_witness [where ps = "''RPCClient: failed to read response total frame length from ''"
                and ss = "'' for method '' @ methodName @ '': '' @ io_error_msg e"]) (simp add: msg_def)
        moreover have "sublist ''read'' msg"
          by (rule sublist_witness [where ps = "''RPCClient: failed to ''"
                and ss = "'' response total frame length from '' @
                 targetAddr @ '' for method '' @ methodName @ '': '' @ io_error_msg e"]) (simp add: msg_def)
        moreover have "sublist ''response'' msg"
          by (rule sublist_witness [where ps = "''RPCClient: failed to read ''"
                and ss = "'' total frame length from '' @
                 targetAddr @ '' for method '' @ methodName @ '': '' @ io_error_msg e"]) (simp add: msg_def)
        ultimately show ?thesis using Inr by auto
      qed
    next
      fix e assume t: "fe = FrameDataRead e"
      define msg where "msg = ''RPCClient: failed to read response frame data from '' @ targetAddr @
            '' for method '' @ methodName @ '': '' @ io_error_msg e"
      have "ex = Returned (Some msg)"
        by (simp add: ex_def Inr t read_error_exit_def msg_def)
      moreover have "sublist methodName msg"
        by (rule sublist_witness [where ps = "''RPCClient: failed to read response frame data from '' @ targetAddr @
            '' for method ''"
              and ss = "'': '' @ io_error_msg e"]) (simp add: msg_def)
      moreover have "sublist targetAddr msg"
        by (rule sublist_witness [where ps = "''RPCClient: failed to read response frame data from ''"
              and ss = "'' for method '' @ methodName @ '': '' @ io_error_msg e"]) (simp add: msg_def)
      moreover have "sublist ''read'' msg"
        by (rule sublist_witness [where ps = "''RPCClient: failed to ''"
              and ss = "'' response frame data from '' @ targetAddr @
            '' for method '' @ methodName @ '': '' @ io_error_msg e"]) (simp add: msg_def)
      moreover have "sublist ''response'' msg"
        by (rule sublist_witness [where ps = "''RPCClient: failed to read ''"
              and ss = "'' frame data from '' @ targetAddr @
            '' for method '' @ methodName @ '': '' @ io_error_msg e"]) (simp add: msg_def)
      ultimately show ?thesis using Inr by auto
    qed
  qed
  have "call_exit r = ex \<and>
            (\<exists>msg. call_exit r = Returned (Some msg) \<and>
               sublist methodName msg \<and> sublist targetAddr msg \<and>
               (case f of
                  Inl e \<Rightarrow> sublist ''send request'' msg
                | Inr e \<Rightarrow> sublist ''read'' msg \<and> sublist ''response'' msg)) \<and>
            call_connHealthy r = Some False \<and>
            (\<exists>cx. call_conn r = Some cx \<and> closed cx) \<and>
            call_client r = c2"
    using msg by (simp add: r conn_Close_def)
  then show ?thesis
    unfolding Let_def r_def ex_def .
qed

theorem io_failure_disposes_connection_witness:
  "call_exit (Call \<lparr>SplitHostPort = (\<lambda>s. True), DiscoverService = (\<lambda>s. Inl []),
                    DialTimeout = (\<lambda>a. Inr \<lparr>incoming = [0, 0], read_fault = None,
                                            write_script = [], sent = [], closed = False\<rparr>),
                    Marshal = (\<lambda>q. Inr [1]), Unmarshal = (\<lambda>b r. (None, r))\<rparr>
               (NewRPCClient None 2) ''h:1'' ''Ping'' () ())
   = Returned (Some (''RPCClient: connection closed by server h:1 while reading response total frame length for method Ping: unexpected EOF''))"
proof -
  let ?conn = "\<lparr>incoming = [0, 0], read_fault = None,
                 write_script = [], sent = [], closed = False\<rparr>"
  let ?w = "\<lparr>SplitHostPort = (\<lambda>s. True), DiscoverService = (\<lambda>s. Inl []),
             DialTimeout = (\<lambda>a. Inr ?conn),
             Marshal = (\<lambda>q. Inr [1]), Unmarshal = (\<lambda>b r. (None, r))\<rparr> :: (unit, unit) world"
  let ?c = "NewRPCClient None 2"
  let ?fb = "frameBuffer ''Ping'' [1]"
  have h1: "resolveTarget ?w ?c ''h:1'' = (Inr ''h:1'', ?c)"
    by (simp add: resolveTarget_def)
  have h2: "getConnection ?w ?c ''h:1''
            = (Inr ?conn, ?c\<lparr>pools := (pools ?c)(''h:1'' \<mapsto> \<lparr>cap = 2, buf = []\<rparr>)\<rparr>)"
    by (simp add: getConnection_def NewRPCClient_def)
  have h3: "Marshal ?w () = Inr [1]"
    by simp
  have h4: "call_io_failure ?conn ?fb = Some (Inr (TotalLenRead ErrUnexpectedEOF))"
    by (simp add: call_io_failure_def sendRequest_def conn_Write_def readFrame_def
          conn_ReadInt32_def conn_ReadFull_def stream_end_def)
  from io_failure_disposes_connection [OF h1 h2 h3 h4, of "()"] show ?thesis
    by (simp add: Let_def read_error_exit_def io_error_msg_def)
qed

text \<open>
  C10: an empty-payload success leaves the response message untouched. If \<^verbatim>\<open>Call\<close> reads
  a well-formed response frame with an empty error string and a payload of length 0, it
  returns \<^verbatim>\<open>nil\<close>, the caller's response message is as it was passed in, and the whole
  result is the same whatever \<^verbatim>\<open>proto.Unmarshal\<close> would do: it is not called.
\<close>
theorem empty_payload_leaves_response:
  assumes "resolveTarget w c serviceName = (Inr targetAddr, c1)"
      and "getConnection w c1 targetAddr = (Inr conn, c2)"
      and "Marshal w requestProto = Inr reqPayloadBytes"
      and "sendRequest conn (frameBuffer methodName reqPayloadBytes) = Inr conn2"
      and "readFrame conn2 = Inr ([], [], conn3)"
  shows "let r = Call w c serviceName methodName requestProto responseProto
         in call_exit r = Returned None \<and> call_response r = responseProto \<and>
            (\<forall>u. Call (w\<lparr>Unmarshal := u\<rparr>) c serviceName methodName requestProto responseProto = r)"
proof -
  have ex: "exchange (w\<lparr>Unmarshal := u\<rparr>) serviceName methodName targetAddr conn requestProto responseProto
            = (Returned None, True, conn3, responseProto)" for u
    using assms(3-5) by (simp add: exchange_def)
  have rt: "resolveTarget (w\<lparr>Unmarshal := u\<rparr>) c serviceName = (Inr targetAddr, c1)" for u
    using assms(1) by (simp add: resolveTarget_def cong: option.case_cong sum.case_cong if_cong)
  have gc: "getConnection (w\<lparr>Unmarshal := u\<rparr>) c1 targetAddr = (Inr conn, c2)" for u
    using assms(2) by (simp add: getConnection_def cong: list.case_cong)
  have "Call (w\<lparr>Unmarshal := u\<rparr>) c serviceName methodName requestProto responseProto
        = \<lparr>call_exit = Returned None,
           call_client = fst (returnConnection c2 targetAddr (Some conn3)),
           call_response = responseProto, call_connHealthy = Some True,
           call_conn = snd (returnConnection c2 targetAddr (Some conn3))\<rparr>" for u
    using Call_exchange [OF rt gc ex] by simp
  from this this [of "Unmarshal w"] show ?thesis
    by (simp add: Let_def)
qed

theorem empty_payload_leaves_response_witness:
  "call_exit (Call \<lparr>SplitHostPort = (\<lambda>s. True), DiscoverService = (\<lambda>s. Inl []),
                    DialTimeout = (\<lambda>a. Inr \<lparr>incoming = encodeFrame [] [], read_fault = None,
                                            write_script = [], sent = [], closed = False\<rparr>),
                    Marshal = (\<lambda>q. Inr [1]), Unmarshal = (\<lambda>b r. (None, \<not> r))\<rparr>
               (NewRPCClient None 2) ''h:1'' ''Ping'' () True) = Returned None \<and>
   call_response (Call \<lparr>SplitHostPort = (\<lambda>s. True), DiscoverService = (\<lambda>s. Inl []),
                    DialTimeout = (\<lambda>a. Inr \<lparr>incoming = encodeFrame [] [], read_fault = None,
                                            write_script = [], sent = [], closed = False\<rparr>),
                    Marshal = (\<lambda>q. Inr [1]), Unmarshal = (\<lambda>b r. (None, \<not> r))\<rparr>
               (NewRPCClient None 2) ''h:1'' ''Ping'' () True) = True"
proof -
  let ?conn = "\<lparr>incoming = encodeFrame [] [], read_fault = None,
                 write_script = [], sent = [], closed = False\<rparr>"
  let ?w = "\<lparr>SplitHostPort = (\<lambda>s. True), DiscoverService = (\<lambda>s. Inl []),
             DialTimeout = (\<lambda>a. Inr ?conn),
             Marshal = (\<lambda>q. Inr [1]), Unmarshal = (\<lambda>b r. (None, \<not> r))\<rparr> :: (unit, bool) world"
  let ?c = "NewRPCClient None 2"
  let ?fb = "frameBuffer ''Ping'' [1]"
  let ?conn2 = "?conn\<lparr>sent := be32_bytes (int32_of_len (length ?fb)) @ ?fb\<rparr>"
  have h1: "resolveTarget ?w ?c ''h:1'' = (Inr ''h:1'', ?c)"
    by (simp add: resolveTarget_def)
  have h2: "getConnection ?w ?c ''h:1''
            = (Inr ?conn, ?c\<lparr>pools := (pools ?c)(''h:1'' \<mapsto> \<lparr>cap = 2, buf = []\<rparr>)\<rparr>)"
    by (simp add: getConnection_def NewRPCClient_def)
  have h3: "Marshal ?w () = Inr [1]"
    by simp
  have h4: "sendRequest ?conn ?fb = Inr ?conn2"
    by (simp add: sendRequest_def conn_Write_def)
  have h5: "readFrame ?conn2 = Inr ([], [], ?conn2\<lparr>incoming := []\<rparr>)"
    using readFrame_encodeFrame [where name = "[]" and payload = "[]" and rest = "[]" and c = ?conn2]
    by simp
  from empty_payload_leaves_response [OF h1 h2 h3 h4 h5, of True] show ?thesis
    by (simp add: Let_def)
qed

lemma getConnection_nextInstance:
  "getConnection w c t = (r, c2) \<Longrightarrow>
   nextInstance c2 = nextInstance c \<and> consulClient c2 = consulClient c"
  by (auto simp: getConnection_def Let_def split: list.splits sum.splits)

lemma returnConnection_nextInstance:
  "returnConnection c t cn = (c2, r) \<Longrightarrow>
   nextInstance c2 = nextInstance c \<and> consulClient c2 = consulClient c"
  by (auto simp: returnConnection_def split: option.splits if_splits)

lemma Call_nextInstance:
  assumes "resolveTarget w c serviceName = (r, c1)"
  shows "nextInstance (call_client (Call w c serviceName methodName requestProto responseProto))
           = nextInstance c1 \<and>
         consulClient (call_client (Call w c serviceName methodName requestProto responseProto))
           = consulClient c1"
proof (cases r)
  case (Inl e)
  with assms show ?thesis by (simp add: Call_def)
next
  case (Inr targetAddr)
  obtain g c2 where g: "getConnection w c1 targetAddr = (g, c2)"
    by (cases "getConnection w c1 targetAddr")
  note n2 = getConnection_nextInstance [OF g]
  show ?thesis
  proof (cases g)
    case (Inl e)
    with assms Inr g n2 show ?thesis by (simp add: Call_def)
  next
    case g2: (Inr conn)
    obtain ex h conn' resp where
      e: "exchange w serviceName methodName targetAddr conn requestProto responseProto
          = (ex, h, conn', resp)"
      by (cases "exchange w serviceName methodName targetAddr conn requestProto responseProto")
    obtain c3 cn where rc: "returnConnection c2 targetAddr (Some conn') = (c3, cn)"
      by (cases "returnConnection c2 targetAddr (Some conn')")
    note n3 = returnConnection_nextInstance [OF rc]
    show ?thesis
      using assms Inr g g2 e rc n2 n3 by (simp add: Call_def)
  qed
qed

lemma resolveTarget_round_robin:
  assumes "\<not> SplitHostPort w serviceName"
      and "consulClient c = Some cc"
      and "DiscoverService w serviceName = Inr instances"
      and "instances \<noteq> []"
  shows "resolveTarget w c serviceName =
         ((case Service (instances ! (unat (nextInstance_get c serviceName) mod length instances)) of
             None \<Rightarrow> Inl (''RPCClient: selected service instance for '' @ serviceName @
                          '' has nil Service data after round-robin'')
           | Some svc \<Rightarrow> Inr (Address svc @ '':'' @ fmt_d (Port svc))),
          c\<lparr>nextInstance := (nextInstance c)(serviceName \<mapsto> nextInstance_get c serviceName + 1)\<rparr>)"
  using assms by (simp add: resolveTarget_def Let_def split: option.splits)

lemma Call_counter:
  assumes "\<not> SplitHostPort w serviceName"
      and "consulClient c = Some cc"
      and "DiscoverService w serviceName = Inr instances"
      and "instances \<noteq> []"
  shows "nextInstance_get (call_client (Call w c serviceName methodName requestProto responseProto)) serviceName
           = nextInstance_get c serviceName + 1 \<and>
         consulClient (call_client (Call w c serviceName methodName requestProto responseProto))
           = Some cc"
  using Call_nextInstance [OF resolveTarget_round_robin [OF assms], of methodName requestProto responseProto] assms(2)
  by (simp add: nextInstance_get_def)

lemma resolveTarget_client:
  "snd (resolveTarget w c name) =
     (if round_robin_call w name \<and> consulClient c \<noteq> None
      then c\<lparr>nextInstance := (nextInstance c)(name \<mapsto> nextInstance_get c name + 1)\<rparr>
      else c)"
  by (auto simp: resolveTarget_def round_robin_call_def Let_def
        split: option.splits sum.splits)

lemma Call_client_counters:
  "nextInstance (call_client (Call w c name methodName requestProto responseProto))
     = (if round_robin_call w name \<and> consulClient c \<noteq> None
        then (nextInstance c)(name \<mapsto> nextInstance_get c name + 1)
        else nextInstance c) \<and>
   consulClient (call_client (Call w c name methodName requestProto responseProto))
     = consulClient c"
proof -
  obtain r c1 where rt: "resolveTarget w c name = (r, c1)"
    by (cases "resolveTarget w c name")
  have c1: "c1 = (if round_robin_call w name \<and> consulClient c \<noteq> None
      then c\<lparr>nextInstance := (nextInstance c)(name \<mapsto> nextInstance_get c name + 1)\<rparr>
      else c)"
    using resolveTarget_client [of w c name] rt by simp
  from Call_nextInstance [OF rt, of methodName requestProto responseProto] c1
  show ?thesis by simp
qed

lemma Call_counter_of:
  "nextInstance_get (call_client (Call w c name methodName requestProto responseProto)) sn
     = (if name = sn \<and> round_robin_call w name \<and> consulClient c \<noteq> None
        then nextInstance_get c sn + 1 else nextInstance_get c sn)"
  using Call_client_counters [of w c name methodName requestProto responseProto]
  by (auto simp: nextInstance_get_def)

lemma call_seq_counter:
  assumes "consulClient c = Some cc"
  shows "nextInstance_get (call_seq c calls) sn
           = nextInstance_get c sn +
             of_nat (length (filter (\<lambda>(w, name, mn, rq, rs). name = sn \<and> round_robin_call w name)
                         calls)) \<and>
         consulClient (call_seq c calls) = Some cc"
  using assms
proof (induction calls arbitrary: c)
  case Nil
  then show ?case by simp
next
  case (Cons x xs)
  obtain w name mn rq rs where x: "x = (w, name, mn, rq, rs)" by (cases x)
  let ?c1 = "call_client (Call w c name mn rq rs)"
  have cc: "consulClient ?c1 = Some cc"
    using Call_client_counters [of w c name mn rq rs] Cons.prems by simp
  have k: "nextInstance_get ?c1 sn
           = (if name = sn \<and> round_robin_call w name then nextInstance_get c sn + 1
              else nextInstance_get c sn)"
    using Call_counter_of [of w c name mn rq rs sn] Cons.prems by simp
  from Cons.IH [OF cc] k show ?case
    by (auto simp: x)
qed

text \<open>
  C9: round-robin selection. Take any sequence of calls on a new client, with any service
  names, literal addresses and outcomes, and a call in it that names a service (a name
  that \<^verbatim>\<open>net.SplitHostPort\<close> rejects) and finds a non-empty instance list. Let \<open>k\<close> be the
  number of earlier calls that named the same service and reached the selection. Before
  the call the counter of that service name is \<open>k\<close>, as a \<^verbatim>\<open>uint64\<close>; the call selects
  \<open>instances[k mod len(instances)]\<close> of the list it finds, whatever the lengths of the
  lists found before, and makes the target address from it; after the call, whatever else
  happens in it, the counter of that name is \<open>k + 1\<close> and the counter of every other name
  is as before, the number of earlier calls that reached the selection for that name.
\<close>
theorem round_robin_selection:
  assumes "i < length calls"
      and "calls ! i = (w, serviceName, methodName, requestProto, responseProto)"
      and "\<not> SplitHostPort w serviceName"
      and "DiscoverService w serviceName = Inr instances"
      and "instances \<noteq> []"
  shows "let c = call_seq (NewRPCClient (Some ()) maxConns) (take i calls);
             k = length (filter (\<lambda>(w', name, mn, rq, rs).
                                   name = serviceName \<and> round_robin_call w' name)
                           (take i calls));
             c' = call_client (Call w c serviceName methodName requestProto responseProto)
         in nextInstance_get c serviceName = of_nat k \<and>
            fst (resolveTarget w c serviceName) =
              (case Service (instances ! (unat (of_nat k :: 64 word) mod length instances)) of
                 None \<Rightarrow> Inl (''RPCClient: selected service instance for '' @ serviceName @
                              '' has nil Service data after round-robin'')
               | Some svc \<Rightarrow> Inr (Address svc @ '':'' @ fmt_d (Port svc))) \<and>
            nextInstance_get c' serviceName = of_nat k + 1 \<and>
            (\<forall>other. other \<noteq> serviceName \<longrightarrow>
               nextInstance_get c' other = nextInstance_get c other \<and>
               nextInstance_get c other
                 = of_nat (length (filter (\<lambda>(w', name, mn, rq, rs).
                                             name = other \<and> round_robin_call w' name)
                                     (take i calls))))"
proof -
  define c0 where "c0 = NewRPCClient (Some ()) maxConns"
  define c where "c = call_seq c0 (take i calls)"
  define c' where "c' = call_client (Call w c serviceName methodName requestProto responseProto)"
  have c0: "consulClient c0 = Some ()" "\<And>sn. nextInstance_get c0 sn = 0"
    by (simp_all add: c0_def NewRPCClient_def nextInstance_get_def)
  have cnt: "nextInstance_get c sn
           = of_nat (length (filter (\<lambda>(w', name, mn, rq, rs). name = sn \<and> round_robin_call w' name)
                         (take i calls)))" for sn
    using call_seq_counter [OF c0(1), of "take i calls" sn] c0(2) by (simp add: c_def)
  have cc: "consulClient c = Some ()"
    using call_seq_counter [OF c0(1), of "take i calls"] by (simp add: c_def)
  have rrc: "round_robin_call w serviceName"
    using assms(3-5) by (simp add: round_robin_call_def)
  note rr = resolveTarget_round_robin [OF assms(3) cc assms(4,5)]
  have after: "nextInstance_get c' sn
        = (if serviceName = sn then nextInstance_get c sn + 1 else nextInstance_get c sn)" for sn
    using Call_counter_of [of w c serviceName methodName requestProto responseProto sn] rrc cc
    by (simp add: c'_def)
  have "nextInstance_get c serviceName
          = of_nat (length (filter (\<lambda>(w', name, mn, rq, rs).
                                   name = serviceName \<and> round_robin_call w' name)
                           (take i calls))) \<and>
        fst (resolveTarget w c serviceName) =
              (case Service (instances ! (unat (of_nat (length (filter (\<lambda>(w', name, mn, rq, rs).
                                   name = serviceName \<and> round_robin_call w' name)
                           (take i calls))) :: 64 word) mod length instances)) of
                 None \<Rightarrow> Inl (''RPCClient: selected service instance for '' @ serviceName @
                              '' has nil Service data after round-robin'')
               | Some svc \<Rightarrow> Inr (Address svc @ '':'' @ fmt_d (Port svc))) \<and>
        nextInstance_get c' serviceName
          = of_nat (length (filter (\<lambda>(w', name, mn, rq, rs).
                                   name = serviceName \<and> round_robin_call w' name)
                           (take i calls))) + 1 \<and>
        (\<forall>other. other \<noteq> serviceName \<longrightarrow>
               nextInstance_get c' other = nextInstance_get c other \<and>
               nextInstance_get c other
                 = of_nat (length (filter (\<lambda>(w', name, mn, rq, rs).
                                             name = other \<and> round_robin_call w' name)
                                     (take i calls))))"
    using cnt rr after by simp
  then show ?thesis
    unfolding Let_def c'_def c_def c0_def .
qed

theorem round_robin_selection_witness:
  "fst (resolveTarget
          (\<lparr>SplitHostPort = (\<lambda>s. s = ''10.0.0.1:7000''),
            DiscoverService = (\<lambda>s. Inr [\<lparr>Service = Some \<lparr>Address = ''a'', Port = 1\<rparr>\<rparr>,
                                          \<lparr>Service = Some \<lparr>Address = ''b'', Port = 2\<rparr>\<rparr>]),
            DialTimeout = (\<lambda>a. Inl ''refused''),
            Marshal = (\<lambda>q. Inr []), Unmarshal = (\<lambda>b r. (None, r))\<rparr> :: (unit, unit) world)
          (call_seq (NewRPCClient (Some ()) 0)
             (take 3 [(\<lparr>SplitHostPort = (\<lambda>s. s = ''10.0.0.1:7000''),
                        DiscoverService = (\<lambda>s. Inr [\<lparr>Service = Some \<lparr>Address = ''a'', Port = 1\<rparr>\<rparr>]),
                        DialTimeout = (\<lambda>a. Inl ''refused''),
                        Marshal = (\<lambda>q. Inr []), Unmarshal = (\<lambda>b r. (None, r))\<rparr>,
                       ''roomserver'', ''M'', (), ()),
                      (\<lparr>SplitHostPort = (\<lambda>s. s = ''10.0.0.1:7000''),
                        DiscoverService = (\<lambda>s. Inr [\<lparr>Service = Some \<lparr>Address = ''f'', Port = 9\<rparr>\<rparr>]),
                        DialTimeout = (\<lambda>a. Inl ''refused''),
                        Marshal = (\<lambda>q. Inr []), Unmarshal = (\<lambda>b r. (None, r))\<rparr>,
                       ''friendserver'', ''M'', (), ()),
                      (\<lparr>SplitHostPort = (\<lambda>s. s = ''10.0.0.1:7000''),
                        DiscoverService = (\<lambda>s. Inl ''down''),
                        DialTimeout = (\<lambda>a. Inl ''refused''),
                        Marshal = (\<lambda>q. Inr []), Unmarshal = (\<lambda>b r. (None, r))\<rparr>,
                       ''10.0.0.1:7000'', ''M'', (), ()),
                      (\<lparr>SplitHostPort = (\<lambda>s. s = ''10.0.0.1:7000''),
                        DiscoverService = (\<lambda>s. Inr [\<lparr>Service = Some \<lparr>Address = ''a'', Port = 1\<rparr>\<rparr>,
                                                      \<lparr>Service = Some \<lparr>Address = ''b'', Port = 2\<rparr>\<rparr>]),
                        DialTimeout = (\<lambda>a. Inl ''refused''),
                        Marshal = (\<lambda>q. Inr []), Unmarshal = (\<lambda>b r. (None, r))\<rparr>,
                       ''roomserver'', ''M'', (), ())]))
          ''roomserver'')
   = Inr ''b:2''"
proof -
  let ?w1 = "\<lparr>SplitHostPort = (\<lambda>s. s = ''10.0.0.1:7000''),
                        DiscoverService = (\<lambda>s. Inr [\<lparr>Service = Some \<lparr>Address = ''a'', Port = 1\<rparr>\<rparr>]),
                        DialTimeout = (\<lambda>a. Inl ''refused''),
                        Marshal = (\<lambda>q. Inr []), Unmarshal = (\<lambda>b r. (None, r))\<rparr> :: (unit, unit) world"
  let ?wf = "\<lparr>SplitHostPort = (\<lambda>s. s = ''10.0.0.1:7000''),
                        DiscoverService = (\<lambda>s. Inr [\<lparr>Service = Some \<lparr>Address = ''f'', Port = 9\<rparr>\<rparr>]),
                        DialTimeout = (\<lambda>a. Inl ''refused''),
                        Marshal = (\<lambda>q. Inr []), Unmarshal = (\<lambda>b r. (None, r))\<rparr> :: (unit, unit) world"
  let ?wd = "\<lparr>SplitHostPort = (\<lambda>s. s = ''10.0.0.1:7000''),
                        DiscoverService = (\<lambda>s. Inl ''down''),
                        DialTimeout = (\<lambda>a. Inl ''refused''),
                        Marshal = (\<lambda>q. Inr []), Unmarshal = (\<lambda>b r. (None, r))\<rparr> :: (unit, unit) world"
  let ?w2 = "\<lparr>SplitHostPort = (\<lambda>s. s = ''10.0.0.1:7000''),
            DiscoverService = (\<lambda>s. Inr [\<lparr>Service = Some \<lparr>Address = ''a'', Port = 1\<rparr>\<rparr>,
                                          \<lparr>Service = Some \<lparr>Address = ''b'', Port = 2\<rparr>\<rparr>]),
            DialTimeout = (\<lambda>a. Inl ''refused''),
            Marshal = (\<lambda>q. Inr []), Unmarshal = (\<lambda>b r. (None, r))\<rparr> :: (unit, unit) world"
  let ?calls = "[(?w1, ''roomserver'', ''M'', (), ()), (?wf, ''friendserver'', ''M'', (), ()),
                 (?wd, ''10.0.0.1:7000'', ''M'', (), ()), (?w2, ''roomserver'', ''M'', (), ())]"
  have h1: "3 < length ?calls" by simp
  have h2: "?calls ! 3 = (?w2, ''roomserver'', ''M'', (), ())" by simp
  have h3: "\<not> SplitHostPort ?w2 ''roomserver''" by simp
  have h4: "DiscoverService ?w2 ''roomserver''
            = Inr [\<lparr>Service = Some \<lparr>Address = ''a'', Port = 1\<rparr>\<rparr>,
                   \<lparr>Service = Some \<lparr>Address = ''b'', Port = 2\<rparr>\<rparr>]"
    by simp
  have h5: "[\<lparr>Service = Some \<lparr>Address = ''a'', Port = 1\<rparr>\<rparr>,
             \<lparr>Service = Some \<lparr>Address = ''b'', Port = 2\<rparr>\<rparr>] \<noteq> []"
    by simp
  note t = round_robin_selection [OF h1 h2 h3 h4 h5, of 0, unfolded Let_def]
  from t [THEN conjunct2, THEN conjunct1] show ?thesis
    by (simp add: round_robin_call_def fmt_d_def nat_dec.simps)
qed

section \<open>Negative length fields\<close>

text \<open>
  What the readers do with the other invalid lengths: a read that fails ends the server's
  loop with the connection closed and no handler called; a total length that is not
  positive is refused; a name or payload length larger than what is left of the frame is
  an unexpected end of the frame in memory; the client returns the error of the failing
  step and closes the connection. Only a negative name or payload length panics.
\<close>
lemma invalid_total_length:
  "conn_ReadInt32 c = Inr (n, c1) \<Longrightarrow> sint n \<le> 0 \<Longrightarrow> readFrame c = Inl (InvalidTotalLen n)"
  by (simp add: readFrame_def)

lemma oversized_name_length:
  assumes "reader_ReadInt32 frameData = Inr (n, r1)" and "0 \<le> sint n"
      and "length r1 < nat (sint n)"
  shows "parseFrame frameData = Inl (NameRead (if r1 = [] then EOF else ErrUnexpectedEOF))"
  using assms by (auto simp: parseFrame_def reader_ReadFull_def)

lemma oversized_payload_length:
  assumes "reader_ReadInt32 frameData = Inr (n, r1)" and "0 \<le> sint n"
      and "reader_ReadFull r1 (nat (sint n)) = Inr (nameBytes, r2)"
      and "reader_ReadInt32 r2 = Inr (p, r3)" and "0 \<le> sint p"
      and "length r3 < nat (sint p)"
  shows "parseFrame frameData = Inl (PayloadRead (if r3 = [] then EOF else ErrUnexpectedEOF))"
  using assms by (auto simp: parseFrame_def reader_ReadFull_def)

lemma parseFrame_panics_iff:
  "parseFrame frameData = Inl MakeslicePanic \<longleftrightarrow>
     (\<exists>n r1. reader_ReadInt32 frameData = Inr (n, r1) \<and>
        (sint n < 0 \<or>
         (\<exists>nameBytes r2 p r3. reader_ReadFull r1 (nat (sint n)) = Inr (nameBytes, r2) \<and>
            reader_ReadInt32 r2 = Inr (p, r3) \<and> sint p < 0)))"
  by (auto simp: parseFrame_def split: sum.splits prod.splits if_splits)

lemma Call_read_error:
  assumes "resolveTarget w c serviceName = (Inr targetAddr, c1)"
      and "getConnection w c1 targetAddr = (Inr conn, c2)"
      and "Marshal w requestProto = Inr reqPayloadBytes"
      and "sendRequest conn (frameBuffer methodName reqPayloadBytes) = Inr conn2"
      and "readFrame conn2 = Inl e" and "e \<noteq> MakeslicePanic"
  shows "Call w c serviceName methodName requestProto responseProto
         = \<lparr>call_exit = read_error_exit methodName targetAddr e, call_client = c2,
            call_response = responseProto, call_connHealthy = Some False,
            call_conn = Some (conn_Close conn2)\<rparr>"
proof -
  have "exchange w serviceName methodName targetAddr conn requestProto responseProto
        = (read_error_exit methodName targetAddr e, False, conn2, responseProto)"
    using assms(3-6) by (simp add: exchange_def)
  from Call_exchange [OF assms(1,2) this] show ?thesis by simp
qed

text \<open>
  C2, at a failing input. A frame with total length 8 whose name-length field is -1
  (bytes \<open>00 00 00 08 | FF FF FF FF | 00 00 00 00\<close>): the server's
  \<^verbatim>\<open>make([]byte, methodNameLen)\<close> panics instead of logging an error and returning, and the
  panic ends the process, not only this connection; a client that reads these bytes as a
  response panics in \<^verbatim>\<open>make([]byte, errLen)\<close> instead of returning an error, and, the
  flag \<^verbatim>\<open>connHealthy\<close> being still true, its deferred function treats the connection as
  healthy.
\<close>
theorem negative_length_field_panics:
  "handleConnection NewRPCServer
     \<lparr>incoming = [0, 0, 0, 8, 255, 255, 255, 255, 0, 0, 0, 0], read_fault = None,
      write_script = [], sent = [], closed = False\<rparr> []
   = (\<lparr>incoming = [0, 0, 0, 8, 255, 255, 255, 255, 0, 0, 0, 0], read_fault = None,
       write_script = [], sent = [], closed = True\<rparr>, [], ReadFailed MakeslicePanic) \<and>
   process_crashed (ReadFailed MakeslicePanic) \<and>
   call_exit (Call \<lparr>SplitHostPort = (\<lambda>s. True), DiscoverService = (\<lambda>s. Inl []),
                    DialTimeout = (\<lambda>a. Inr \<lparr>incoming = [0, 0, 0, 8, 255, 255, 255, 255, 0, 0, 0, 0],
                                            read_fault = None, write_script = [], sent = [],
                                            closed = False\<rparr>),
                    Marshal = (\<lambda>q. Inr [1]), Unmarshal = (\<lambda>b r. (None, r))\<rparr>
               (NewRPCClient None 2) ''h:1'' ''Ping'' () ()) = Panicked \<and>
   call_connHealthy (Call \<lparr>SplitHostPort = (\<lambda>s. True), DiscoverService = (\<lambda>s. Inl []),
                    DialTimeout = (\<lambda>a. Inr \<lparr>incoming = [0, 0, 0, 8, 255, 255, 255, 255, 0, 0, 0, 0],
                                            read_fault = None, write_script = [], sent = [],
                                            closed = False\<rparr>),
                    Marshal = (\<lambda>q. Inr [1]), Unmarshal = (\<lambda>b r. (None, r))\<rparr>
               (NewRPCClient None 2) ''h:1'' ''Ping'' () ()) = Some True"
proof -
  have rd: "readFrame (c\<lparr>incoming := [0, 0, 0, 8, 255, 255, 255, 255, 0, 0, 0, 0]\<rparr>)
            = Inl MakeslicePanic" for c
    by (simp add: readFrame_def conn_ReadInt32_def conn_ReadFull_def be32_word_def
        parseFrame_def reader_ReadInt32_def reader_ReadFull_def)
  have srv: "handleConnection NewRPCServer
     \<lparr>incoming = [0, 0, 0, 8, 255, 255, 255, 255, 0, 0, 0, 0], read_fault = None,
      write_script = [], sent = [], closed = False\<rparr> []
   = (\<lparr>incoming = [0, 0, 0, 8, 255, 255, 255, 255, 0, 0, 0, 0], read_fault = None,
       write_script = [], sent = [], closed = True\<rparr>, [], ReadFailed MakeslicePanic)"
    using rd [of "\<lparr>incoming = [], read_fault = None, write_script = [], sent = [],
                  closed = False\<rparr>"]
    by (simp add: handleConnection.simps conn_Close_def)
  let ?conn = "\<lparr>incoming = [0, 0, 0, 8, 255, 255, 255, 255, 0, 0, 0, 0], read_fault = None,
                 write_script = [], sent = [], closed = False\<rparr>"
  let ?w = "\<lparr>SplitHostPort = (\<lambda>s. True), DiscoverService = (\<lambda>s. Inl []),
             DialTimeout = (\<lambda>a. Inr ?conn),
             Marshal = (\<lambda>q. Inr [1]), Unmarshal = (\<lambda>b r. (None, r))\<rparr> :: (unit, unit) world"
  let ?c = "NewRPCClient None 2"
  let ?fb = "frameBuffer ''Ping'' [1]"
  let ?conn2 = "?conn\<lparr>sent := be32_bytes (int32_of_len (length ?fb)) @ ?fb\<rparr>"
  have h1: "resolveTarget ?w ?c ''h:1'' = (Inr ''h:1'', ?c)"
    by (simp add: resolveTarget_def)
  have h2: "getConnection ?w ?c ''h:1''
            = (Inr ?conn, ?c\<lparr>pools := (pools ?c)(''h:1'' \<mapsto> \<lparr>cap = 2, buf = []\<rparr>)\<rparr>)"
    by (simp add: getConnection_def NewRPCClient_def)
  have h4: "sendRequest ?conn ?fb = Inr ?conn2"
    by (simp add: sendRequest_def conn_Write_def)
  have h5: "readFrame ?conn2 = Inl MakeslicePanic"
    using rd [of ?conn2] by simp
  have ex: "exchange ?w ''h:1'' ''Ping'' ''h:1'' ?conn () ()
            = (Panicked, True, ?conn2, ())"
    unfolding exchange_def by (simp add: h4 h5 read_error_exit_def del: conn.simps)
  from Call_exchange [OF h1 h2 ex] srv show ?thesis
    by (simp add: process_crashed_def)
qed

section \<open>The actor\<close>

lemma exec_invariant:
  assumes "\<And>a act a'. P a \<Longrightarrow> step proc a act = Some a' \<Longrightarrow> P a'"
      and "P a" and "exec proc a acts = Some a'"
  shows "P a'"
  using assms(2,3)
proof (induction acts arbitrary: a)
  case Nil
  then show ?case by simp
next
  case (Cons act acts)
  then show ?case
    by (auto split: option.splits intro: assms(1))
qed

lemma step_bound:
  assumes "length (mailbox a) \<le> mailbox_cap a" and "step proc a act = Some a'"
  shows "length (mailbox a') \<le> mailbox_cap a'"
  using assms
  by (auto simp: step_def caller_step_def run_step_def tell_select_def ask_select1_def
        ask_select2_def send_mailbox_def set_caller_def
        split: action.splits option.splits caller_pc.splits run_pc.splits select_case.splits
          if_splits list.splits prod.splits)

lemma step_join:
  assumes "wg a = (if run_pc a = RunExited then 0 else 1) \<and>
           (\<forall>tid. callers a tid = Some StopReturned \<longrightarrow> run_pc a = RunExited)"
      and "step proc a act = Some a'"
  shows "wg a' = (if run_pc a' = RunExited then 0 else 1) \<and>
         (\<forall>tid. callers a' tid = Some StopReturned \<longrightarrow> run_pc a' = RunExited)"
  using assms
  by (auto simp: step_def caller_step_def run_step_def tell_select_def ask_select1_def
        ask_select2_def send_mailbox_def set_caller_def
        split: action.splits option.splits caller_pc.splits run_pc.splits select_case.splits
          if_splits list.splits prod.splits)

lemma step_exited:
  assumes "run_pc a = RunExited \<and> processed a = ps"
      and "step proc a act = Some a'"
  shows "run_pc a' = RunExited \<and> processed a' = ps"
  using assms
  by (auto simp: step_def caller_step_def run_step_def tell_select_def ask_select1_def
        ask_select2_def send_mailbox_def set_caller_def
        split: action.splits option.splits caller_pc.splits run_pc.splits select_case.splits
          if_splits list.splits prod.splits)

lemma step_asks_mono:
  assumes "step proc a act = Some a'" and "asks a i \<noteq> None"
  shows "asks a' i \<noteq> None"
  using assms
  by (auto simp: step_def caller_step_def run_step_def tell_select_def ask_select1_def
        ask_select2_def send_mailbox_def set_caller_def
        split: action.splits option.splits caller_pc.splits run_pc.splits select_case.splits
          if_splits list.splits prod.splits)

lemma step_ask_caller:
  assumes "step proc a act = Some a'"
      and "(\<exists>m. callers a' tid = Some (AskSelect1 i m)) \<or> callers a' tid = Some (AskSelect2 i)"
  shows "(\<exists>m. callers a tid = Some (AskSelect1 i m)) \<or> callers a tid = Some (AskSelect2 i) \<or>
         asks a' i \<noteq> None"
  using assms
  by (auto simp: step_def caller_step_def run_step_def tell_select_def ask_select1_def
        ask_select2_def send_mailbox_def set_caller_def
        split: action.splits option.splits caller_pc.splits run_pc.splits select_case.splits
          if_splits list.splits prod.splits)

lemma step_asks_present:
  assumes "\<forall>tid i. (\<exists>m. callers a tid = Some (AskSelect1 i m)) \<or> callers a tid = Some (AskSelect2 i)
             \<longrightarrow> asks a i \<noteq> None"
      and "step proc a act = Some a'"
  shows "\<forall>tid i. (\<exists>m. callers a' tid = Some (AskSelect1 i m)) \<or> callers a' tid = Some (AskSelect2 i)
             \<longrightarrow> asks a' i \<noteq> None"
proof (intro allI impI)
  fix tid i
  assume "(\<exists>m. callers a' tid = Some (AskSelect1 i m)) \<or> callers a' tid = Some (AskSelect2 i)"
  from step_ask_caller [OF assms(2) this]
  show "asks a' i \<noteq> None"
    using assms(1) step_asks_mono [OF assms(2), of i] by blast
qed

lemma reachable_bound:
  assumes "exec proc (NewActor sz) acts = Some a"
  shows "length (mailbox a) \<le> mailbox_cap a"
proof (rule exec_invariant [where P = "\<lambda>a. length (mailbox a) \<le> mailbox_cap a", OF _ _ assms])
  show "length (mailbox (NewActor sz)) \<le> mailbox_cap (NewActor sz)"
    by (simp add: NewActor_def)
qed (rule step_bound)

lemma reachable_join:
  assumes "exec proc (NewActor sz) acts = Some a"
  shows "wg a = (if run_pc a = RunExited then 0 else 1) \<and>
         (\<forall>tid. callers a tid = Some StopReturned \<longrightarrow> run_pc a = RunExited)"
proof (rule exec_invariant [where P = "\<lambda>a. wg a = (if run_pc a = RunExited then 0 else 1) \<and>
         (\<forall>tid. callers a tid = Some StopReturned \<longrightarrow> run_pc a = RunExited)", OF _ _ assms])
  show "wg (NewActor sz) = (if run_pc (NewActor sz) = RunExited then 0 else 1) \<and>
        (\<forall>tid. callers (NewActor sz) tid = Some StopReturned \<longrightarrow> run_pc (NewActor sz) = RunExited)"
    by (simp add: NewActor_def)
qed (rule step_join)

lemma reachable_asks_present:
  assumes "exec proc (NewActor sz) acts = Some a"
  shows "\<forall>tid i. (\<exists>m. callers a tid = Some (AskSelect1 i m)) \<or> callers a tid = Some (AskSelect2 i)
             \<longrightarrow> asks a i \<noteq> None"
proof (rule exec_invariant [where P = "\<lambda>a. \<forall>tid i. (\<exists>m. callers a tid = Some (AskSelect1 i m)) \<or> callers a tid = Some (AskSelect2 i)
             \<longrightarrow> asks a i \<noteq> None", OF _ _ assms])
  show "\<forall>tid i. (\<exists>m. callers (NewActor sz) tid = Some (AskSelect1 i m)) \<or>
                callers (NewActor sz) tid = Some (AskSelect2 i)
             \<longrightarrow> asks (NewActor sz) i \<noteq> None"
    by (simp add: NewActor_def)
qed (rule step_asks_present)

lemma exited_stays:
  assumes "run_pc a = RunExited" and "exec proc a acts = Some a'"
  shows "run_pc a' = RunExited \<and> processed a' = processed a"
proof (rule exec_invariant [where P = "\<lambda>b. run_pc b = RunExited \<and> processed b = processed a", OF _ _ assms(2)])
  show "run_pc a = RunExited \<and> processed a = processed a"
    using assms(1) by simp
qed (rule step_exited)

lemma step_stop_stays:
  assumes "step proc a act = Some a'" and "stopCh_closed a"
  shows "stopCh_closed a'"
  using assms
  by (auto simp: step_def caller_step_def run_step_def tell_select_def ask_select1_def
        ask_select2_def send_mailbox_def set_caller_def
        split: action.splits option.splits caller_pc.splits run_pc.splits select_case.splits
          if_splits list.splits prod.splits)

lemma step_running:
  assumes "step proc a act = Some a'" and "\<not> stopCh_closed a'"
      and "\<not> mailbox_closed a" and "run_pc a \<noteq> RunDeferred" and "run_pc a \<noteq> RunDrain"
      and "run_pc a \<noteq> RunExited"
  shows "\<not> mailbox_closed a' \<and> run_pc a' \<noteq> RunDeferred \<and> run_pc a' \<noteq> RunDrain \<and>
         run_pc a' \<noteq> RunExited"
  using assms
  by (auto simp: step_def caller_step_def run_step_def tell_select_def ask_select1_def
        ask_select2_def send_mailbox_def set_caller_def
        split: action.splits option.splits caller_pc.splits run_pc.splits select_case.splits
          if_splits list.splits prod.splits)

lemma step_closed:
  assumes "(mailbox_closed a \<or> run_pc a = RunDeferred \<or> run_pc a = RunDrain \<or>
            run_pc a = RunExited) \<longrightarrow> stopCh_closed a"
      and "step proc a act = Some a'"
  shows "(mailbox_closed a' \<or> run_pc a' = RunDeferred \<or> run_pc a' = RunDrain \<or>
          run_pc a' = RunExited) \<longrightarrow> stopCh_closed a'"
proof (cases "stopCh_closed a'")
  case True
  then show ?thesis by simp
next
  case False
  then have "\<not> stopCh_closed a"
    using step_stop_stays [OF assms(2)] by blast
  with assms(1) have "\<not> mailbox_closed a" "run_pc a \<noteq> RunDeferred" "run_pc a \<noteq> RunDrain"
    "run_pc a \<noteq> RunExited"
    by blast+
  from step_running [OF assms(2) False this] show ?thesis by blast
qed

lemma reachable_closed:
  assumes "exec proc (NewActor sz) acts = Some a"
  shows "(mailbox_closed a \<or> run_pc a = RunDeferred \<or> run_pc a = RunDrain \<or>
          run_pc a = RunExited) \<longrightarrow> stopCh_closed a"
proof (rule exec_invariant [where P = "\<lambda>a. (mailbox_closed a \<or> run_pc a = RunDeferred \<or>
          run_pc a = RunDrain \<or> run_pc a = RunExited) \<longrightarrow> stopCh_closed a", OF _ _ assms])
  show "(mailbox_closed (NewActor sz) \<or> run_pc (NewActor sz) = RunDeferred \<or>
         run_pc (NewActor sz) = RunDrain \<or> run_pc (NewActor sz) = RunExited) \<longrightarrow>
        stopCh_closed (NewActor sz)"
    by (simp add: NewActor_def)
qed (rule step_closed)

lemma tell_select_enabled: "\<exists>ch. tell_select a tid m dflt ch \<noteq> None"
proof (cases "mailbox_closed a \<or> length (mailbox a) < mailbox_cap a")
  case True
  then have "tell_select a tid m dflt CaseMailbox \<noteq> None"
    by (auto simp: tell_select_def send_mailbox_def)
  then show ?thesis ..
next
  case False
  show ?thesis
  proof (cases "stopCh_closed a")
    case True
    then have "tell_select a tid m dflt CaseStop \<noteq> None"
      by (simp add: tell_select_def)
    then show ?thesis ..
  next
    case stop: False
    with False have "tell_select a tid m dflt CaseDefault \<noteq> None"
      by (simp add: tell_select_def)
    then show ?thesis ..
  qed
qed

text \<open>
  C7, as stated, fails for a nil message: on a new actor with a mailbox of two free slots,
  \<^verbatim>\<open>Tell\<close> of nil returns the error \<open>cannot Tell a nil message\<close> and enqueues nothing.
\<close>
theorem tell_nil_message_counterexample:
  "length (mailbox (NewActor [2] :: (unit, bool) Actor)) < mailbox_cap (NewActor [2] :: (unit, bool) Actor) \<and>
   exec_caller reply_true (NewActor [2]) [CallTell 0 None] 0
     = Some (TellReturned (Some ''cannot Tell a nil message'')) \<and>
   exec reply_true (NewActor [2]) [CallTell 0 None]
     = Some (set_caller (NewActor [2]) 0 (TellReturned (Some ''cannot Tell a nil message''))) \<and>
   mailbox (set_caller (NewActor [2] :: (unit, bool) Actor) 0
              (TellReturned (Some ''cannot Tell a nil message''))) = []"
  by (simp add: exec_caller_def step_def NewActor_def set_caller_def)

text \<open>
  C7, amended: \<^verbatim>\<open>Tell\<close> backpressure, for a non-nil message. In every state the actor can
  reach, the mailbox holds at most its capacity, and a \<^verbatim>\<open>Tell\<close> at either of its two
  \<^verbatim>\<open>select\<close> statements has a case it can take: it never blocks. While the actor is
  running (the stop channel is open), a \<^verbatim>\<open>Tell\<close> of a non-nil message goes to its first
  \<^verbatim>\<open>select\<close>, and at each \<^verbatim>\<open>select\<close> exactly one case can be taken: when the mailbox has
  free space, the send, which appends the message to the mailbox and returns nil; when
  the mailbox holds its capacity, the default case, which leaves the mailbox as it is and
  leads from the first \<^verbatim>\<open>select\<close> to the second and from the second to the error
  \<open>actor mailbox is full\<close>.
\<close>
theorem tell_backpressure:
  assumes "exec proc (NewActor sz) acts = Some a"
  shows "length (mailbox a) \<le> mailbox_cap a \<and>
         (callers a tid = Some (TellSelect1 m) \<or> callers a tid = Some (TellSelect2 m) \<longrightarrow>
            (\<exists>ch. caller_step a tid ch \<noteq> None)) \<and>
         (\<not> stopCh_closed a \<longrightarrow>
           (callers a tid = None \<longrightarrow>
              step proc a (CallTell tid (Some m)) = Some (set_caller a tid (TellSelect1 m))) \<and>
           (callers a tid = Some (TellSelect1 m) \<longrightarrow>
              caller_step a tid ch =
                (if length (mailbox a) < mailbox_cap a
                 then (if ch = CaseMailbox
                       then Some (set_caller (a\<lparr>mailbox := mailbox a @ [\<lparr>message = m, ask = None\<rparr>]\<rparr>)
                                    tid (TellReturned None))
                       else None)
                 else (if ch = CaseDefault then Some (set_caller a tid (TellSelect2 m)) else None))) \<and>
           (callers a tid = Some (TellSelect2 m) \<longrightarrow>
              caller_step a tid ch =
                (if length (mailbox a) < mailbox_cap a
                 then (if ch = CaseMailbox
                       then Some (set_caller (a\<lparr>mailbox := mailbox a @ [\<lparr>message = m, ask = None\<rparr>]\<rparr>)
                                    tid (TellReturned None))
                       else None)
                 else (if ch = CaseDefault
                       then Some (set_caller a tid (TellReturned (Some ''actor mailbox is full'')))
                       else None))))"
proof -
  have nb: "callers a tid = Some (TellSelect1 m) \<or> callers a tid = Some (TellSelect2 m) \<longrightarrow>
            (\<exists>ch. caller_step a tid ch \<noteq> None)"
    using tell_select_enabled [of a tid m "TellSelect2 m"]
      tell_select_enabled [of a tid m "TellReturned (Some ''actor mailbox is full'')"]
    by (auto simp: caller_step_def)
  have sel: "tell_select a tid m dflt ch =
              (if length (mailbox a) < mailbox_cap a
               then (if ch = CaseMailbox
                     then Some (set_caller (a\<lparr>mailbox := mailbox a @ [\<lparr>message = m, ask = None\<rparr>]\<rparr>)
                                  tid (TellReturned None))
                     else None)
               else (if ch = CaseDefault then Some (set_caller a tid dflt) else None))"
    if "\<not> stopCh_closed a" for dflt
    using that reachable_closed [OF assms]
    by (cases ch) (auto simp: tell_select_def send_mailbox_def)
  show ?thesis
    using reachable_bound [OF assms] sel nb
    by (simp add: step_def caller_step_def)
qed

theorem tell_backpressure_witness:
  "caller_step
     \<lparr>mailbox = [\<lparr>message = (), ask = None\<rparr>, \<lparr>message = (), ask = None\<rparr>], mailbox_cap = 2,
      mailbox_closed = False, stopCh_closed = False, wg = 1, run_pc = RunSelect,
      asks = Map.empty,
      callers = [0 \<mapsto> TellReturned None, 1 \<mapsto> TellReturned None, 2 \<mapsto> TellSelect2 ()],
      processed = []\<rparr> 2 CaseDefault
   = Some (set_caller
       (\<lparr>mailbox = [\<lparr>message = (), ask = None\<rparr>, \<lparr>message = (), ask = None\<rparr>], mailbox_cap = 2,
         mailbox_closed = False, stopCh_closed = False, wg = 1, run_pc = RunSelect,
         asks = Map.empty,
         callers = [0 \<mapsto> TellReturned None, 1 \<mapsto> TellReturned None, 2 \<mapsto> TellSelect2 ()],
         processed = []\<rparr> :: (unit, bool) Actor) 2
       (TellReturned (Some ''actor mailbox is full'')))"
proof -
  let ?a = "\<lparr>mailbox = [\<lparr>message = (), ask = None\<rparr>, \<lparr>message = (), ask = None\<rparr>], mailbox_cap = 2,
      mailbox_closed = False, stopCh_closed = False, wg = 1, run_pc = RunSelect,
      asks = Map.empty,
      callers = [0 \<mapsto> TellReturned None, 1 \<mapsto> TellReturned None, 2 \<mapsto> TellSelect2 ()],
      processed = []\<rparr> :: (unit, bool) Actor"
  have e: "exec reply_true (NewActor [2])
             [CallTell 0 (Some ()), Caller 0 CaseMailbox, CallTell 1 (Some ()),
              Caller 1 CaseMailbox, CallTell 2 (Some ()), Caller 2 CaseDefault] = Some ?a"
    by (simp add: step_def NewActor_def caller_step_def tell_select_def send_mailbox_def
          set_caller_def)
  from tell_backpressure [OF e, of 2 "()" CaseDefault] show ?thesis
    by simp
qed

text \<open>
  C6, at a failing schedule. A caller asks on a new actor and its message is enqueued; before
  the caller reaches its second \<^verbatim>\<open>select\<close>, the loop receives the message, processes it
  (the processor replies \<open>True\<close>), sends the reply into \<^verbatim>\<open>replyCh\<close> and closes
  \<^verbatim>\<open>replyCh\<close> and \<^verbatim>\<open>errorCh\<close>. At the caller's \<^verbatim>\<open>select\<close> the receive from the closed
  \<^verbatim>\<open>errorCh\<close> can proceed as well as the one from \<^verbatim>\<open>replyCh\<close>; taking it, \<^verbatim>\<open>Ask\<close>
  returns a nil response and a nil error: none of the four outcomes.
\<close>
theorem ask_returns_nil_nil:
  "exec_caller reply_true (NewActor [])
     [CallAsk 0 0 (Some ()) None, Caller 0 CaseMailbox, Loop CaseMailbox, Loop CaseDefault,
      Loop CaseReply, Loop CaseDefault, Loop CaseDefault, Caller 0 CaseError] 0
   = Some (AskReturned None None) \<and>
   exec_processed reply_true (NewActor [])
     [CallAsk 0 0 (Some ()) None, Caller 0 CaseMailbox, Loop CaseMailbox, Loop CaseDefault,
      Loop CaseReply, Loop CaseDefault, Loop CaseDefault, Caller 0 CaseError]
   = Some [()]"
  by (simp add: exec_caller_def exec_processed_def reply_true_def step_def NewActor_def
        caller_step_def run_step_def ask_select1_def ask_select2_def send_mailbox_def
        set_caller_def defaultMailboxSize_def)

text \<open>
  C8, as stated, fails. An \<^verbatim>\<open>Ask\<close> message is queued and unprocessed, and its caller has not
  yet reached its second \<^verbatim>\<open>select\<close>, when \<^verbatim>\<open>Stop\<close> closes the stop channel. In the
  loop's \<^verbatim>\<open>select\<close> the receive from the mailbox can proceed as well as the stop case;
  taking it, the loop processes the message and sends the reply, and the caller gets the
  reply \<open>True\<close>, not a stopped error.
\<close>
theorem stop_pending_ask_counterexample:
  "exec_caller reply_true (NewActor [])
     [CallAsk 0 0 (Some ()) None, Caller 0 CaseMailbox, CallStop 1, Caller 1 CaseDefault] 0
   = Some (AskSelect2 0) \<and>
   exec_processed reply_true (NewActor [])
     [CallAsk 0 0 (Some ()) None, Caller 0 CaseMailbox, CallStop 1, Caller 1 CaseDefault]
   = Some [] \<and>
   exec_caller reply_true (NewActor [])
     [CallAsk 0 0 (Some ()) None, Caller 0 CaseMailbox, CallStop 1, Caller 1 CaseDefault,
      Loop CaseMailbox, Loop CaseDefault, Loop CaseReply, Loop CaseDefault, Loop CaseDefault,
      Caller 0 CaseReply] 0
   = Some (AskReturned (Some True) None)"
  by (simp add: exec_caller_def exec_processed_def reply_true_def step_def NewActor_def
        caller_step_def run_step_def ask_select1_def ask_select2_def send_mailbox_def
        set_caller_def defaultMailboxSize_def)

text \<open>
  C8, amended: stop-drain with join semantics. In every state the actor can reach:
  once the stop channel is closed, an \<^verbatim>\<open>Ask\<close> caller waiting for its reply is not blocked,
  its stop case can be taken and returns \<open>actor stopped while Ask was waiting for a reply\<close>;
  if the loop has not taken its message up (its channels are open, \<^verbatim>\<open>replyCh\<close> is empty,
  \<^verbatim>\<open>errorCh\<close> is empty or holds the error of the drain) and its context is not done,
  every case it can take returns one of the two stopped errors; the drain sends
  \<open>actor stopped before processing Ask message\<close> to a queued \<^verbatim>\<open>Ask\<close> whose \<^verbatim>\<open>errorCh\<close> is
  empty; \<^verbatim>\<open>Stop\<close> can return only when the loop has exited, and after the loop has exited
  no message is processed, whatever happens next.
\<close>
theorem stop_drain_join:
  assumes "exec proc (NewActor sz) acts = Some a"
  shows "(stopCh_closed a \<and> callers a tid = Some (AskSelect2 i) \<longrightarrow>
            caller_step a tid CaseStop
              = Some (set_caller a tid
                  (AskReturned None (Some ''actor stopped while Ask was waiting for a reply'')))) \<and>
         (stopCh_closed a \<and> callers a tid = Some (AskSelect2 i) \<and> asks a i = Some c \<and>
          replyCh c = [] \<and> \<not> replyCh_closed c \<and> \<not> errorCh_closed c \<and> ctx_err c = None \<and>
          (errorCh c = [] \<or> errorCh c = [''actor stopped before processing Ask message'']) \<and>
          caller_step a tid ch = Some a' \<longrightarrow>
            callers a' tid
              = Some (AskReturned None (Some ''actor stopped while Ask was waiting for a reply'')) \<or>
            callers a' tid
              = Some (AskReturned None (Some ''actor stopped before processing Ask message''))) \<and>
         (run_pc a = RunDrain \<and> mailbox a = msg # rest \<and> ask msg = Some i \<and>
          asks a i = Some c \<and> errorCh c = [] \<and> \<not> errorCh_closed c \<longrightarrow>
            run_step proc a ch
              = Some (a\<lparr>mailbox := rest,
                        asks := (asks a)(i \<mapsto> c\<lparr>errorCh :=
                                   [''actor stopped before processing Ask message'']\<rparr>)\<rparr>)) \<and>
         (callers a tid = Some StopWait \<longrightarrow>
            caller_step a tid ch
              = (if run_pc a = RunExited then Some (set_caller a tid StopReturned) else None)) \<and>
         (callers a tid = Some StopReturned \<longrightarrow> run_pc a = RunExited) \<and>
         (run_pc a = RunExited \<longrightarrow>
            (\<forall>acts' a'. exec proc a acts' = Some a' \<longrightarrow>
               run_pc a' = RunExited \<and> processed a' = processed a))"
proof -
  note j = reachable_join [OF assms]
  note p = reachable_asks_present [OF assms, rule_format]
  have 1: "stopCh_closed a \<and> callers a tid = Some (AskSelect2 i) \<longrightarrow>
            caller_step a tid CaseStop
              = Some (set_caller a tid
                  (AskReturned None (Some ''actor stopped while Ask was waiting for a reply'')))"
    using p [of tid i] by (auto simp: caller_step_def ask_select2_def)
  have 2: "stopCh_closed a \<and> callers a tid = Some (AskSelect2 i) \<and> asks a i = Some c \<and>
          replyCh c = [] \<and> \<not> replyCh_closed c \<and> \<not> errorCh_closed c \<and> ctx_err c = None \<and>
          (errorCh c = [] \<or> errorCh c = [''actor stopped before processing Ask message'']) \<and>
          caller_step a tid ch = Some a' \<longrightarrow>
            callers a' tid
              = Some (AskReturned None (Some ''actor stopped while Ask was waiting for a reply'')) \<or>
            callers a' tid
              = Some (AskReturned None (Some ''actor stopped before processing Ask message''))"
    by (cases ch) (auto simp: caller_step_def ask_select2_def set_caller_def)
  have 3: "run_pc a = RunDrain \<and> mailbox a = msg # rest \<and> ask msg = Some i \<and>
          asks a i = Some c \<and> errorCh c = [] \<and> \<not> errorCh_closed c \<longrightarrow>
            run_step proc a ch
              = Some (a\<lparr>mailbox := rest,
                        asks := (asks a)(i \<mapsto> c\<lparr>errorCh :=
                                   [''actor stopped before processing Ask message'']\<rparr>)\<rparr>)"
    by (simp add: run_step_def)
  have 4: "callers a tid = Some StopWait \<longrightarrow>
            caller_step a tid ch
              = (if run_pc a = RunExited then Some (set_caller a tid StopReturned) else None)"
    using j by (simp add: caller_step_def)
  have 5: "callers a tid = Some StopReturned \<longrightarrow> run_pc a = RunExited"
    using j by blast
  have 6: "run_pc a = RunExited \<longrightarrow>
            (\<forall>acts' a'. exec proc a acts' = Some a' \<longrightarrow>
               run_pc a' = RunExited \<and> processed a' = processed a)"
    using exited_stays by blast
  from 1 2 3 4 5 6 show ?thesis by blast
qed

theorem stop_drain_join_witness:
  "caller_step
     \<lparr>mailbox = [\<lparr>message = (), ask = Some 0\<rparr>], mailbox_cap = 128,
      mailbox_closed = False, stopCh_closed = True, wg = 1, run_pc = RunSelect,
      asks = [0 \<mapsto> \<lparr>replyCh = [], replyCh_closed = False, errorCh = [],
                      errorCh_closed = False, ctx_err = None\<rparr>],
      callers = [0 \<mapsto> AskSelect2 0, 1 \<mapsto> StopWait],
      processed = []\<rparr> 0 CaseStop
   = Some (set_caller
       (\<lparr>mailbox = [\<lparr>message = (), ask = Some 0\<rparr>], mailbox_cap = 128,
         mailbox_closed = False, stopCh_closed = True, wg = 1, run_pc = RunSelect,
         asks = [0 \<mapsto> \<lparr>replyCh = [], replyCh_closed = False, errorCh = [],
                         errorCh_closed = False, ctx_err = None\<rparr>],
         callers = [0 \<mapsto> AskSelect2 0, 1 \<mapsto> StopWait],
         processed = []\<rparr> :: (unit, bool) Actor) 0
       (AskReturned None (Some ''actor stopped while Ask was waiting for a reply'')))"
proof -
  let ?a = "\<lparr>mailbox = [\<lparr>message = (), ask = Some 0\<rparr>], mailbox_cap = 128,
      mailbox_closed = False, stopCh_closed = True, wg = 1, run_pc = RunSelect,
      asks = [0 \<mapsto> \<lparr>replyCh = [], replyCh_closed = False, errorCh = [],
                      errorCh_closed = False, ctx_err = None\<rparr>],
      callers = [0 \<mapsto> AskSelect2 0, 1 \<mapsto> StopWait],
      processed = []\<rparr> :: (unit, bool) Actor"
  have e: "exec reply_true (NewActor [])
             [CallAsk 0 0 (Some ()) None, Caller 0 CaseMailbox, CallStop 1,
              Caller 1 CaseDefault] = Some ?a"
    by (simp add: step_def NewActor_def caller_step_def ask_select1_def send_mailbox_def
          set_caller_def defaultMailboxSize_def)
  from stop_drain_join [OF e, of 0 0] show ?thesis
    by simp
qed

text \<open>
  The stop-drain scenario: two \<^verbatim>\<open>Ask\<close> calls are queued behind a message the loop is
  processing when \<^verbatim>\<open>Stop\<close> is called; the loop takes the stop case and drains them, and
  both callers get a stopped error, whichever of their ready cases they take; \<^verbatim>\<open>Stop\<close>
  has returned and only the first message was processed.
\<close>
lemma stop_drain_scenario:
  "exec_caller reply_true (NewActor [])
     [CallTell 9 (Some ()), Caller 9 CaseMailbox, Loop CaseMailbox,
      CallAsk 0 0 (Some ()) None, Caller 0 CaseMailbox,
      CallAsk 1 1 (Some ()) None, Caller 1 CaseMailbox,
      CallStop 2, Caller 2 CaseDefault, Loop CaseDefault, Loop CaseStop, Loop CaseDefault,
      Loop CaseDefault, Loop CaseDefault, Loop CaseDefault, Caller 2 CaseDefault,
      Caller 0 CaseError, Caller 1 CaseStop] 0
   = Some (AskReturned None (Some ''actor stopped before processing Ask message'')) \<and>
   exec_caller reply_true (NewActor [])
     [CallTell 9 (Some ()), Caller 9 CaseMailbox, Loop CaseMailbox,
      CallAsk 0 0 (Some ()) None, Caller 0 CaseMailbox,
      CallAsk 1 1 (Some ()) None, Caller 1 CaseMailbox,
      CallStop 2, Caller 2 CaseDefault, Loop CaseDefault, Loop CaseStop, Loop CaseDefault,
      Loop CaseDefault, Loop CaseDefault, Loop CaseDefault, Caller 2 CaseDefault,
      Caller 0 CaseError, Caller 1 CaseStop] 1
   = Some (AskReturned None (Some ''actor stopped while Ask was waiting for a reply'')) \<and>
   exec_caller reply_true (NewActor [])
     [CallTell 9 (Some ()), Caller 9 CaseMailbox, Loop CaseMailbox,
      CallAsk 0 0 (Some ()) None, Caller 0 CaseMailbox,
      CallAsk 1 1 (Some ()) None, Caller 1 CaseMailbox,
      CallStop 2, Caller 2 CaseDefault, Loop CaseDefault, Loop CaseStop, Loop CaseDefault,
      Loop CaseDefault, Loop CaseDefault, Loop CaseDefault, Caller 2 CaseDefault,
      Caller 0 CaseError, Caller 1 CaseStop] 2
   = Some StopReturned \<and>
   exec_processed reply_true (NewActor [])
     [CallTell 9 (Some ()), Caller 9 CaseMailbox, Loop CaseMailbox,
      CallAsk 0 0 (Some ()) None, Caller 0 CaseMailbox,
      CallAsk 1 1 (Some ()) None, Caller 1 CaseMailbox,
      CallStop 2, Caller 2 CaseDefault, Loop CaseDefault, Loop CaseStop, Loop CaseDefault,
      Loop CaseDefault, Loop CaseDefault, Loop CaseDefault, Caller 2 CaseDefault,
      Caller 0 CaseError, Caller 1 CaseStop]
   = Some [()]"
  by (simp add: exec_caller_def exec_processed_def reply_true_def step_def NewActor_def
        caller_step_def run_step_def tell_select_def ask_select1_def ask_select2_def
        send_mailbox_def set_caller_def defaultMailboxSize_def)

end
